theory Spec2Isabelle
  imports Complex_Main
begin

section \<open>Recency ranking and interactive session of grecent\<close>

subsection \<open>String helpers of the Go standard library used by the program\<close>

text \<open>Go strings are byte sequences; \<open>string\<close> (a list of 8-bit characters) models them.
  The helpers below are the byte-level functions of package \<open>strings\<close> that the program
  calls with ASCII separators.\<close>

definition tab :: char where
  "tab = CHR 0x09"

text \<open>\<open>strings.Split(s, sep)\<close> for a one-byte separator: always at least one field.\<close>

fun strings_Split :: "string \<Rightarrow> char \<Rightarrow> string list" where
  "strings_Split [] sep = [[]]"
| "strings_Split (c # cs) sep =
     (if c = sep then [] # strings_Split cs sep
      else (case strings_Split cs sep of
              [] \<Rightarrow> [[c]]
            | f # fs \<Rightarrow> (c # f) # fs))"

text \<open>\<open>strings.SplitN(s, sep, 2)\<close> for a one-byte separator: cut at the first separator.\<close>

definition strings_SplitN2 :: "string \<Rightarrow> char \<Rightarrow> string list" where
  "strings_SplitN2 s sep =
     (if sep \<in> set s
      then [takeWhile (\<lambda>c. c \<noteq> sep) s, tl (dropWhile (\<lambda>c. c \<noteq> sep) s)]
      else [s])"

definition strings_HasPrefix :: "string \<Rightarrow> string \<Rightarrow> bool" where
  "strings_HasPrefix s p = (take (length p) s = p)"

definition strings_TrimPrefix :: "string \<Rightarrow> string \<Rightarrow> string" where
  "strings_TrimPrefix s p = (if strings_HasPrefix s p then drop (length p) s else s)"

text \<open>\<open>strings.Index\<close>: position of the first occurrence, or \<open>-1\<close>.\<close>

fun strings_Index :: "string \<Rightarrow> string \<Rightarrow> int" where
  "strings_Index [] sub = (if sub = [] then 0 else - 1)"
| "strings_Index (c # cs) sub =
     (if strings_HasPrefix (c # cs) sub then 0
      else (let i = strings_Index cs sub in if i = - 1 then - 1 else i + 1))"

text \<open>\<open>strings.LastIndex\<close>: position of the last occurrence, or \<open>-1\<close>.\<close>

definition strings_LastIndex :: "string \<Rightarrow> string \<Rightarrow> int" where
  "strings_LastIndex s sub =
     (let i = strings_Index (rev s) (rev sub)
      in if i = - 1 then - 1 else int (length s) - int (length sub) - i)"

text \<open>The slice expression \<open>s[lo:hi]\<close> for \<open>0 \<le> lo \<le> hi \<le> len(s)\<close>.\<close>

definition substr :: "string \<Rightarrow> int \<Rightarrow> int \<Rightarrow> string" where
  "substr s lo hi = take (nat (hi - lo)) (drop (nat lo) s)"

subsection \<open>The environment: external processes and library functions\<close>

text \<open>A \<open>time.Time\<close> is modelled by the instant it denotes, in nanoseconds since the
  Unix epoch; \<open>After\<close> and \<open>Before\<close> compare instants only.\<close>

type_synonym Time = int

text \<open>The history of the external commands run so far, oldest first. A command is its
  argument vector, \<open>git\<close> included.\<close>

type_synonym proclog = "string list list"

text \<open>What the program does not define itself is a parameter:
  \<^item> \<open>runProcess\<close>: what an external command answers, given the commands run before it:
    \<open>Inl\<close> the error text when \<open>cmd.Output()\<close> or \<open>cmd.Run()\<close> returns an error,
    \<open>Inr\<close> the bytes of standard output otherwise;
  \<^item> \<open>time_Parse layout value\<close>: \<open>time.Parse\<close>, \<open>None\<close> for a parse error;
  \<^item> \<open>strings_TrimSpace\<close>: \<open>strings.TrimSpace\<close> (Unicode white space);
  \<^item> \<open>scanLines\<close>: the tokens a \<open>bufio.Scanner\<close> yields on a byte buffer and the
    value of \<open>scanner.Err()\<close> afterwards;
  \<^item> \<open>fuzzy_FindNormalizedFold\<close>: the matcher of the fuzzy search library.\<close>

record env =
  runProcess :: "proclog \<Rightarrow> string list \<Rightarrow> string + string"
  time_Parse :: "string \<Rightarrow> string \<Rightarrow> Time option"
  strings_TrimSpace :: "string \<Rightarrow> string"
  scanLines :: "string \<Rightarrow> string list \<times> string option"
  fuzzy_FindNormalizedFold :: "string \<Rightarrow> string list \<Rightarrow> string list"

definition exec :: "env \<Rightarrow> string list \<Rightarrow> proclog \<Rightarrow> (string + string) \<times> proclog" where
  "exec e args h = (runProcess e h args, h @ [args])"

subsection \<open>main.go: the recency engine\<close>

record Branch =
  Name :: string
  CommitHash :: string
  CommitTime :: Time
  IsCurrent :: bool
  HasUpstream :: bool

definition RFC3339 :: string where
  "RFC3339 = ''2006-01-02T15:04:05Z07:00''"

definition gitDateLayouts :: "string list" where
  "gitDateLayouts =
     [''2006-01-02 15:04:05 -0700'',
      ''2006-01-02 15:04:05 -07:00'',
      ''Mon Jan 2 15:04:05 2006 -0700'',
      RFC3339]"

fun tryLayouts :: "env \<Rightarrow> string list \<Rightarrow> string \<Rightarrow> Time option" where
  "tryLayouts e [] s = None"
| "tryLayouts e (layout # layouts) s =
     (case time_Parse e layout (strings_TrimSpace e s) of
        Some t \<Rightarrow> Some t
      | None \<Rightarrow> tryLayouts e layouts s)"

definition parseGitDate :: "env \<Rightarrow> string \<Rightarrow> string + Time" where
  "parseGitDate e s =
     (case tryLayouts e gitDateLayouts s of
        Some t \<Rightarrow> Inr t
      | None \<Rightarrow> Inl (''unrecognized date: '' @ s))"

definition normalizeUpstream :: "env \<Rightarrow> string \<Rightarrow> string" where
  "normalizeUpstream e us0 =
     (let us = strings_TrimSpace e us0
      in if us = [] then []
         else if strings_HasPrefix us ''refs/remotes/''
         then strings_TrimPrefix us ''refs/remotes/''
         else us)"

text \<open>The command that asks for the checked-out branch.\<close>

definition revParseHead :: "string list" where
  "revParseHead = [''git'', ''rev-parse'', ''--abbrev-ref'', ''HEAD'']"

definition getCurrentBranch :: "env \<Rightarrow> proclog \<Rightarrow> (string \<times> string option) \<times> proclog" where
  "getCurrentBranch e h =
     (case exec e revParseHead h of
        (Inl err, h') \<Rightarrow> (([], Some err), h')
      | (Inr out, h') \<Rightarrow>
          (let branch = strings_TrimSpace e out
           in if branch = ''HEAD'' then (([], Some ''detached HEAD''), h')
              else ((branch, None), h')))"

text \<open>The two bytes \<open>@\<close> and \<open>{\<close> that open the date of a reflog selector.\<close>

definition atBrace :: string where
  "atBrace = [CHR ''@'', CHR ''{'']"

text \<open>The command that asks for the latest reflog entry of a branch.\<close>

definition reflogArgs :: "string \<Rightarrow> string list" where
  "reflogArgs branch =
     [''git'', ''reflog'', ''--date=iso-strict'', ''--pretty=%gd'', ''-n'', ''1'',
      ''refs/heads/'' @ branch]"

definition getBranchReflogLatestTime :: "env \<Rightarrow> string \<Rightarrow> proclog \<Rightarrow> Time option \<times> proclog" where
  "getBranchReflogLatestTime e branch h =
     (case exec e (reflogArgs branch) h of
        (Inl err, h') \<Rightarrow> (None, h')
      | (Inr out, h') \<Rightarrow>
          if out = [] then (None, h')
          else
            (let line = strings_TrimSpace e out;
                 start = strings_Index line atBrace;
                 end = strings_LastIndex line ''}''
             in if start = - 1 \<or> end = - 1 \<or> start + 2 \<ge> end then (None, h')
                else
                  (let dateStr = substr line (start + 2) end
                   in case time_Parse e RFC3339 dateStr of
                        Some t \<Rightarrow> (Some t, h')
                      | None \<Rightarrow>
                          (case parseGitDate e dateStr of
                             Inr t \<Rightarrow> (Some t, h')
                           | Inl err \<Rightarrow> (None, h')))))"

text \<open>The body of the scanning loop of \<open>getRemoteBranchTimes\<close>, for one line.\<close>

definition remoteLine :: "env \<Rightarrow> (string \<rightharpoonup> Time) \<Rightarrow> string \<Rightarrow> (string \<rightharpoonup> Time)" where
  "remoteLine e result line =
     (let parts = strings_SplitN2 line tab
      in if length parts \<noteq> 2 then result
         else
           (let name = strings_TrimSpace e (parts ! 0);
                dateStr = strings_TrimSpace e (parts ! 1)
            in case time_Parse e RFC3339 dateStr of
                 Some t \<Rightarrow> result(name \<mapsto> t)
               | None \<Rightarrow>
                   (case parseGitDate e dateStr of
                      Inr t \<Rightarrow> result(name \<mapsto> t)
                    | Inl err \<Rightarrow> result)))"

text \<open>The command that lists the remote-tracking refs with their tip dates.\<close>

definition forEachRefRemotes :: "string list" where
  "forEachRefRemotes =
     [''git'', ''for-each-ref'', ''--format'',
      ''%(refname:short)'' @ [tab] @ ''%(committerdate:iso-strict)'',
      ''refs/remotes'']"

definition getRemoteBranchTimes :: "env \<Rightarrow> proclog \<Rightarrow> (string \<rightharpoonup> Time) \<times> proclog" where
  "getRemoteBranchTimes e h =
     (case exec e forEachRefRemotes h of
        (Inl err, h') \<Rightarrow> (Map.empty, h')
      | (Inr out, h') \<Rightarrow>
          if out = [] then (Map.empty, h')
          else (foldl (remoteLine e) Map.empty (fst (scanLines e out)), h'))"

text \<open>\<open>sort.SliceStable\<close>: a stable sort by the strict order \<open>lt\<close> (the argument \<open>less\<close> of the source). An element is
  inserted in front of the already sorted rest and moves right only past the elements that
  are strictly less than it, so elements that \<open>lt\<close> does not separate keep their order.\<close>

fun insertStable :: "('a \<Rightarrow> 'a \<Rightarrow> bool) \<Rightarrow> 'a \<Rightarrow> 'a list \<Rightarrow> 'a list" where
  "insertStable lt x [] = [x]"
| "insertStable lt x (y # ys) =
     (if lt y x then y # insertStable lt x ys else x # y # ys)"

definition sort_SliceStable :: "('a \<Rightarrow> 'a \<Rightarrow> bool) \<Rightarrow> 'a list \<Rightarrow> 'a list" where
  "sort_SliceStable lt xs = foldr (insertStable lt) xs []"

text \<open>The three candidate timestamps of one branch are fused in the order of the source:
  the tip commit time, then the reflog time if it is later, then the upstream time if it is
  later.\<close>

definition fuseReflog :: "Time \<Rightarrow> Time option \<Rightarrow> Time" where
  "fuseReflog commitTime r =
     (case r of Some t \<Rightarrow> (if t > commitTime then t else commitTime) | None \<Rightarrow> commitTime)"

definition fuseUpstream :: "Time \<Rightarrow> string \<Rightarrow> (string \<rightharpoonup> Time) \<Rightarrow> Time" where
  "fuseUpstream commitTime upstreamShort remoteTimes =
     (if upstreamShort \<noteq> []
      then (case remoteTimes upstreamShort of
              Some rt \<Rightarrow> (if rt > commitTime then rt else commitTime)
            | None \<Rightarrow> commitTime)
      else commitTime)"

definition forEachRefHeads :: "string list" where
  "forEachRefHeads =
     [''git'', ''for-each-ref'', ''--sort=-committerdate'', ''--format'',
      ''%(refname:short)'' @ [tab] @ ''%(objectname)'' @ [tab] @
        ''%(committerdate:iso-strict)'' @ [tab] @ ''%(upstream)'' @ [CHR 0x0A],
      ''refs/heads'']"

text \<open>The tip commit time of a line: \<open>time.Parse\<close> on the trimmed field, then
  \<open>parseGitDate\<close> on the field.\<close>

definition parseTip :: "env \<Rightarrow> string \<Rightarrow> string + Time" where
  "parseTip e commitTimeStr =
     (case time_Parse e RFC3339 (strings_TrimSpace e commitTimeStr) of
        Some t \<Rightarrow> Inr t
      | None \<Rightarrow> parseGitDate e commitTimeStr)"

text \<open>The scanning loop of \<open>getRecentBranches\<close>: a line with fewer than four fields is
  skipped, a tip time that does not parse ends the whole computation with an error.\<close>

fun scanBranches ::
  "env \<Rightarrow> string \<Rightarrow> (string \<rightharpoonup> Time) \<Rightarrow> string list \<Rightarrow> Branch list \<Rightarrow> proclog
     \<Rightarrow> (string + Branch list) \<times> proclog" where
  "scanBranches e currentBranch remoteTimes [] branches h = (Inr branches, h)"
| "scanBranches e currentBranch remoteTimes (line # rest) branches h =
     (let fields = strings_Split line tab
      in if length fields < 4 then scanBranches e currentBranch remoteTimes rest branches h
         else
           (let name = fields ! 0; commit = fields ! 1;
                commitTimeStr = fields ! 2; upstreamRaw = fields ! 3
            in case parseTip e commitTimeStr of
                 Inl err \<Rightarrow> (Inl (''parse date for '' @ name @ '': '' @ err), h)
               | Inr commitTime0 \<Rightarrow>
                   (case getBranchReflogLatestTime e name h of
                      (r, h') \<Rightarrow>
                        (let commitTime1 = fuseReflog commitTime0 r;
                             upstreamShort = normalizeUpstream e upstreamRaw;
                             commitTime2 = fuseUpstream commitTime1 upstreamShort remoteTimes
                         in scanBranches e currentBranch remoteTimes rest
                              (branches @
                                 [\<lparr>Name = name, CommitHash = commit, CommitTime = commitTime2,
                                   IsCurrent = (name = currentBranch),
                                   HasUpstream = (upstreamShort \<noteq> [])\<rparr>])
                              h'))))"

definition getRecentBranches :: "env \<Rightarrow> proclog \<Rightarrow> (string + Branch list) \<times> proclog" where
  "getRecentBranches e h =
     (case exec e forEachRefHeads h of
        (Inl err, h1) \<Rightarrow> (Inl (''git for-each-ref failed: '' @ err), h1)
      | (Inr out, h1) \<Rightarrow>
          (case getCurrentBranch e h1 of
             ((currentBranch, cerr), h2) \<Rightarrow>
               (case getRemoteBranchTimes e h2 of
                  (remoteTimes, h3) \<Rightarrow>
                    (case scanBranches e currentBranch remoteTimes (fst (scanLines e out)) [] h3 of
                       (Inl err, h4) \<Rightarrow> (Inl err, h4)
                     | (Inr branches, h4) \<Rightarrow>
                         (case snd (scanLines e out) of
                            Some err \<Rightarrow> (Inl err, h4)
                          | None \<Rightarrow>
                              (Inr (sort_SliceStable
                                      (\<lambda>a b. CommitTime a > CommitTime b) branches),
                               h4))))))"

subsection \<open>main.go: humanizing an age\<close>

text \<open>A \<open>time.Duration\<close> is a signed 64-bit count of nanoseconds; \<open>time.Since(t)\<close> is
  \<open>time.Now().Sub(t)\<close>, which saturates at the least and the greatest duration.\<close>

type_synonym Duration = int

definition Minute :: Duration where
  "Minute = 60 * 1000000000"

definition Hour :: Duration where
  "Hour = 60 * Minute"

definition minDuration :: Duration where
  "minDuration = - (2 ^ 63)"

definition maxDuration :: Duration where
  "maxDuration = 2 ^ 63 - 1"

definition time_Since :: "Time \<Rightarrow> Time \<Rightarrow> Duration" where
  "time_Since now t =
     (if now - t < minDuration then minDuration
      else if now - t > maxDuration then maxDuration
      else now - t)"

text \<open>Go's integer division and remainder truncate toward zero.\<close>

definition quo :: "int \<Rightarrow> int \<Rightarrow> int" where
  "quo a b = sgn a * sgn b * (\<bar>a\<bar> div \<bar>b\<bar>)"

definition rem :: "int \<Rightarrow> int \<Rightarrow> int" where
  "rem a b = a - b * quo a b"

text \<open>\<open>Duration.Minutes\<close> and \<open>Duration.Hours\<close> compute in \<open>float64\<close>. A finite
  \<open>float64\<close> is modelled by the rational number it denotes, and each arithmetic operation
  by the exact operation followed by IEEE 754 rounding to the nearest value with a 53-bit
  significand, ties to even. Every value that arises below lies between \<open>2\<^sup>-\<^sup>4\<^sup>2\<close> and
  \<open>2\<^sup>6\<^sup>3\<close> in magnitude or is zero, so neither subnormal numbers nor overflow occur.\<close>

type_synonym float64 = rat

definition pow2 :: "int \<Rightarrow> rat" where
  "pow2 k = (if 0 \<le> k then 2 ^ nat k else 1 / 2 ^ nat (- k))"

text \<open>The number of binary digits of a positive integer.\<close>

function bitLength :: "int \<Rightarrow> int" where
  "bitLength n = (if n \<le> 0 then 0 else 1 + bitLength (n div 2))"
  by pat_completeness auto
termination
  by (relation "measure nat") auto

declare bitLength.simps [simp del]

text \<open>The binary exponent of a positive rational \<open>x\<close>: the \<open>k\<close> with \<open>2\<^sup>k \<le> x < 2\<^sup>k\<^sup>+\<^sup>1\<close>.\<close>

definition floorLog2 :: "rat \<Rightarrow> int" where
  "floorLog2 x =
     (case quotient_of x of
        (p, q) \<Rightarrow>
          (let b = bitLength p - bitLength q
           in if pow2 b \<le> x then b else b - 1))"

definition roundHalfEven :: "rat \<Rightarrow> int" where
  "roundHalfEven q =
     (let n = \<lfloor>q\<rfloor>; r = q - of_int n
      in if r < 1 / 2 then n
         else if 1 / 2 < r then n + 1
         else if even n then n else n + 1)"

definition round64 :: "rat \<Rightarrow> float64" where
  "round64 x =
     (if x = 0 then 0
      else (let a = \<bar>x\<bar>; u = pow2 (floorLog2 a - 52)
            in sgn x * of_int (roundHalfEven (a / u)) * u))"

definition float64_of_int :: "int \<Rightarrow> float64" where
  "float64_of_int n = round64 (of_int n)"

definition fadd :: "float64 \<Rightarrow> float64 \<Rightarrow> float64" where
  "fadd x y = round64 (x + y)"

definition fdiv :: "float64 \<Rightarrow> float64 \<Rightarrow> float64" where
  "fdiv x y = round64 (x / y)"

text \<open>The conversion \<open>int(f)\<close> discards the fraction.\<close>

definition int_of_float64 :: "float64 \<Rightarrow> int" where
  "int_of_float64 f = (if 0 \<le> f then \<lfloor>f\<rfloor> else \<lceil>f\<rceil>)"

definition Duration_Minutes :: "Duration \<Rightarrow> float64" where
  "Duration_Minutes d =
     fadd (float64_of_int (quo d Minute)) (fdiv (float64_of_int (rem d Minute)) 60000000000)"

definition Duration_Hours :: "Duration \<Rightarrow> float64" where
  "Duration_Hours d =
     fadd (float64_of_int (quo d Hour)) (fdiv (float64_of_int (rem d Hour)) 3600000000000)"

text \<open>The verb \<open>%d\<close> of \<open>fmt.Sprintf\<close>.\<close>

function decimal :: "int \<Rightarrow> string" where
  "decimal n =
     (if n < 10 then [''0123456789'' ! nat n]
      else decimal (n div 10) @ [''0123456789'' ! nat (n mod 10)])"
  by pat_completeness auto
termination
  by (relation "measure nat") auto

declare decimal.simps [simp del]

definition itoa :: "int \<Rightarrow> string" where
  "itoa i = (if i < 0 then CHR ''-'' # decimal (- i) else decimal i)"

text \<open>\<open>humanizeTime\<close> on the duration \<open>d = time.Since(t)\<close>.\<close>

definition humanizeDuration :: "Duration \<Rightarrow> string" where
  "humanizeDuration d =
     (if d < Minute then ''just now''
      else if d < Hour then itoa (int_of_float64 (Duration_Minutes d)) @ ''m ago''
      else if d < 24 * Hour then itoa (int_of_float64 (Duration_Hours d)) @ ''h ago''
      else if d < 30 * 24 * Hour
        then itoa (int_of_float64 (fdiv (Duration_Hours d) 24)) @ ''d ago''
      else if d < 365 * 24 * Hour
        then (let months = int_of_float64 (fdiv (Duration_Hours d) 720)
              in if months \<le> 1 then ''1mo ago'' else itoa months @ ''mo ago'')
      else (let years = int_of_float64 (fdiv (Duration_Hours d) 8760)
            in if years \<le> 1 then ''1y ago'' else itoa years @ ''y ago''))"

definition humanizeTime :: "Time \<Rightarrow> Time \<Rightarrow> string" where
  "humanizeTime now t = humanizeDuration (time_Since now t)"

subsection \<open>tui.go: the session state machine\<close>

record model =
  branches :: "Branch list"
  filtered :: "Branch list"
  cursor :: int
  width :: int
  height :: int
  search :: string
  status :: string
  sortBy :: string
  sortDesc :: bool
  confirming :: bool
  action :: string

text \<open>The messages \<open>Update\<close> distinguishes; \<open>OtherMsg\<close> stands for every other message of
  the framework (a window size, a mouse event), which \<open>Update\<close> ignores.\<close>

datatype Msg = KeyMsg string | TickMsg Time | StatusMsg string | OtherMsg

text \<open>The commands \<open>Update\<close> returns. \<open>readLine(&m.search)\<close> is a closure over a pointer:
  \<open>CmdReadLine a\<close> holds the address \<open>a\<close> of the \<open>model\<close> value whose \<open>search\<close> field the
  closure will write.\<close>

datatype Cmd = CmdNil | CmdQuit | CmdTick | CmdReadLine nat | CmdBatch "Cmd list"

text \<open>What lies outside the \<open>model\<close> value that the framework holds: the history of the
  external commands, and the store of the \<open>model\<close> values that outlive a call of \<open>Update\<close>
  because a closure points into them. \<open>Update\<close> has a value receiver: its \<open>m\<close> is a copy of
  the framework's model, and the model it returns is a copy of \<open>m\<close> again.\<close>

record world =
  procs :: proclog
  heap :: "model list"

text \<open>Go compares strings byte by byte.\<close>

fun stringLess :: "string \<Rightarrow> string \<Rightarrow> bool" where
  "stringLess [] [] = False"
| "stringLess [] (d # ds) = True"
| "stringLess (c # cs) [] = False"
| "stringLess (c # cs) (d # ds) =
     (if (of_char c :: nat) < of_char d then True
      else if (of_char d :: nat) < of_char c then False
      else stringLess cs ds)"

text \<open>The comparison handed to \<open>sort.SliceStable\<close> in \<open>applySortFilter\<close>.\<close>

definition viewLess :: "model \<Rightarrow> Branch \<Rightarrow> Branch \<Rightarrow> bool" where
  "viewLess m a b =
     (if sortBy m = ''name''
      then (if sortDesc m then stringLess (Name b) (Name a) else stringLess (Name a) (Name b))
      else (if sortDesc m then CommitTime a > CommitTime b else CommitTime a < CommitTime b))"

definition applySortFilter :: "env \<Rightarrow> model \<Rightarrow> model" where
  "applySortFilter e m =
     (let found =
            (if search m = [] then branches m
             else
               (let names = map Name (branches m);
                    nameToBranch = foldl (\<lambda>mp b. mp(Name b \<mapsto> b)) Map.empty (branches m);
                    matches = fuzzy_FindNormalizedFold e (search m) names
                in List.map_filter nameToBranch matches));
          sorted = (if search m = [] then sort_SliceStable (viewLess m) found else found);
          c1 = (if cursor m \<ge> int (length sorted) then int (length sorted) - 1 else cursor m);
          c2 = (if c1 < 0 then 0 else c1)
      in m\<lparr>filtered := sorted, cursor := c2\<rparr>)"

definition initialModel :: "env \<Rightarrow> Branch list \<Rightarrow> model" where
  "initialModel e bs =
     applySortFilter e
       \<lparr>branches = bs, filtered = bs, cursor = 0, width = 0, height = 0, search = [],
        status = [], sortBy = ''time'', sortDesc = True, confirming = False, action = []\<rparr>"

definition runCmdSilent :: "env \<Rightarrow> string list \<Rightarrow> proclog \<Rightarrow> string option \<times> proclog" where
  "runCmdSilent e args h =
     (case exec e args h of
        (Inl err, h') \<Rightarrow> (Some err, h')
      | (Inr out, h') \<Rightarrow> (None, h'))"

definition gitFetchAll :: "env \<Rightarrow> proclog \<Rightarrow> string option \<times> proclog" where
  "gitFetchAll e h =
     runCmdSilent e [''git'', ''fetch'', ''--all'', ''--prune'', ''--tags'', ''--quiet''] h"

definition gitCheckoutBranch :: "env \<Rightarrow> string \<Rightarrow> proclog \<Rightarrow> string option \<times> proclog" where
  "gitCheckoutBranch e name h = runCmdSilent e [''git'', ''checkout'', name] h"

definition gitDeleteBranch :: "env \<Rightarrow> string \<Rightarrow> proclog \<Rightarrow> string option \<times> proclog" where
  "gitDeleteBranch e name h =
     (case runCmdSilent e [''git'', ''branch'', ''-d'', name] h of
        (Some err, h') \<Rightarrow> runCmdSilent e [''git'', ''branch'', ''-D'', name] h'
      | (None, h') \<Rightarrow> (None, h'))"

definition gitMergeIntoCurrent :: "env \<Rightarrow> string \<Rightarrow> proclog \<Rightarrow> string option \<times> proclog" where
  "gitMergeIntoCurrent e name h = runCmdSilent e [''git'', ''merge'', name] h"

text \<open>After a successful delete or merge: the status is set, the ranking is recomputed and,
  if that succeeds, replaces the snapshot.\<close>

definition reloadAfter :: "env \<Rightarrow> model \<Rightarrow> string \<Rightarrow> proclog \<Rightarrow> model \<times> proclog" where
  "reloadAfter e m msg h =
     (case getRecentBranches e h of
        (Inr brs, h') \<Rightarrow> (applySortFilter e (m\<lparr>status := msg, branches := brs\<rparr>), h')
      | (Inl err, h') \<Rightarrow> (m\<lparr>status := msg\<rparr>, h'))"

text \<open>The branch \<open>"y", "Y"\<close> of the confirmation switch.\<close>

definition confirmYes :: "env \<Rightarrow> model \<Rightarrow> proclog \<Rightarrow> model \<times> proclog" where
  "confirmYes e m h =
     (case
        (if 0 \<le> cursor m \<and> cursor m < int (length (filtered m))
         then
           (let b = filtered m ! nat (cursor m)
            in if action m = ''delete''
               then
                 (if IsCurrent b then (m\<lparr>status := ''cannot delete current branch''\<rparr>, h)
                  else
                    (case gitDeleteBranch e (Name b) h of
                       (Some err, h') \<Rightarrow> (m\<lparr>status := ''delete failed: '' @ err\<rparr>, h')
                     | (None, h') \<Rightarrow> reloadAfter e m (''deleted '' @ Name b) h'))
               else if action m = ''merge''
               then
                 (if IsCurrent b then (m\<lparr>status := ''already on this branch''\<rparr>, h)
                  else
                    (case gitMergeIntoCurrent e (Name b) h of
                       (Some err, h') \<Rightarrow> (m\<lparr>status := ''merge failed: '' @ err\<rparr>, h')
                     | (None, h') \<Rightarrow>
                         reloadAfter e m (''merged '' @ Name b @ '' into current'') h'))
               else (m, h))
         else (m, h)) of
        (m', h') \<Rightarrow> (m'\<lparr>confirming := False, action := []\<rparr>, h'))"

text \<open>The case \<open>"s"\<close> of the key switch, without the recomputation of the view.\<close>

definition cycleSort :: "model \<Rightarrow> model" where
  "cycleSort m =
     (if sortBy m = ''time'' then m\<lparr>sortBy := ''name'', sortDesc := False\<rparr>
      else if sortBy m = ''name'' \<and> \<not> sortDesc m then m\<lparr>sortBy := ''time'', sortDesc := False\<rparr>
      else if sortBy m = ''time'' \<and> \<not> sortDesc m then m\<lparr>sortBy := ''name'', sortDesc := True\<rparr>
      else m\<lparr>sortBy := ''time'', sortDesc := True\<rparr>)"

text \<open>The second switch of the key handler, reached in browsing mode and also, in
  confirming mode, by every key that the confirmation switch has no case for.\<close>

definition keySwitch :: "env \<Rightarrow> model \<Rightarrow> string \<Rightarrow> world \<Rightarrow> (model \<times> Cmd) \<times> world" where
  "keySwitch e m s w =
     (if s = ''ctrl+c'' \<or> s = ''q'' then ((m, CmdQuit), w)
      else if s = ''up'' \<or> s = ''k''
        then ((if cursor m > 0 then m\<lparr>cursor := cursor m - 1\<rparr> else m, CmdNil), w)
      else if s = ''down'' \<or> s = ''j''
        then ((if cursor m < int (length (filtered m)) - 1 then m\<lparr>cursor := cursor m + 1\<rparr>
               else m, CmdNil), w)
      else if s = ''home'' \<or> s = ''g'' then ((m\<lparr>cursor := 0\<rparr>, CmdNil), w)
      else if s = ''end'' \<or> s = ''G''
        then ((if length (filtered m) > 0 then m\<lparr>cursor := int (length (filtered m)) - 1\<rparr>
               else m, CmdNil), w)
      else if s = ''/''
        then
          (let m' = m\<lparr>status := ''Search: type to filter, press Enter to apply, Esc to clear''\<rparr>
           in ((m', CmdReadLine (length (heap w))), w\<lparr>heap := heap w @ [m']\<rparr>))
      else if s = ''esc'' then ((applySortFilter e (m\<lparr>search := []\<rparr>), CmdNil), w)
      else if s = ''enter''
        then
          (if 0 \<le> cursor m \<and> cursor m < int (length (filtered m))
           then
             (let b = filtered m ! nat (cursor m)
              in case gitCheckoutBranch e (Name b) (procs w) of
                   (Some err, h') \<Rightarrow>
                     ((m\<lparr>status := ''checkout failed: '' @ err\<rparr>, CmdNil), w\<lparr>procs := h'\<rparr>)
                 | (None, h') \<Rightarrow>
                     ((m\<lparr>status := ''checked out '' @ Name b\<rparr>, CmdNil), w\<lparr>procs := h'\<rparr>))
           else ((m, CmdNil), w))
      else if s = ''x'' \<or> s = ''delete''
        then
          (if 0 \<le> cursor m \<and> cursor m < int (length (filtered m))
           then
             (let b = filtered m ! nat (cursor m)
              in ((m\<lparr>confirming := True, action := ''delete'',
                      status := ''delete '' @ Name b @ ''? y/N''\<rparr>, CmdNil), w))
           else ((m, CmdNil), w))
      else if s = ''m''
        then
          (if 0 \<le> cursor m \<and> cursor m < int (length (filtered m))
           then
             (let b = filtered m ! nat (cursor m)
              in ((m\<lparr>confirming := True, action := ''merge'',
                      status := ''merge '' @ Name b @ '' into current? y/N''\<rparr>, CmdNil), w))
           else ((m, CmdNil), w))
      else if s = ''r''
        then
          (case getRecentBranches e (procs w) of
             (Inl err, h') \<Rightarrow> ((m\<lparr>status := ''refresh failed: '' @ err\<rparr>, CmdNil), w\<lparr>procs := h'\<rparr>)
           | (Inr brs, h') \<Rightarrow>
               (((applySortFilter e (m\<lparr>branches := brs\<rparr>))\<lparr>status := ''refreshed''\<rparr>, CmdNil),
                w\<lparr>procs := h'\<rparr>))
      else if s = ''f''
        then
          (case gitFetchAll e (procs w) of
             (ferr, h0) \<Rightarrow>
               (case getRecentBranches e h0 of
                  (Inl err, h') \<Rightarrow>
                    ((m\<lparr>status := ''fetch failed: '' @ err\<rparr>, CmdNil), w\<lparr>procs := h'\<rparr>)
                | (Inr brs, h') \<Rightarrow>
                    (((applySortFilter e (m\<lparr>branches := brs\<rparr>))\<lparr>status := ''fetched''\<rparr>, CmdNil),
                     w\<lparr>procs := h'\<rparr>)))
      else if s = ''s'' then ((applySortFilter e (cycleSort m), CmdNil), w)
      else ((m, CmdNil), w))"

definition Update :: "env \<Rightarrow> model \<Rightarrow> Msg \<Rightarrow> world \<Rightarrow> (model \<times> Cmd) \<times> world" where
  "Update e m msg w =
     (case msg of
        KeyMsg s \<Rightarrow>
          (if confirming m \<and> (s = ''y'' \<or> s = ''Y'')
           then (case confirmYes e m (procs w) of (m', h') \<Rightarrow> ((m', CmdNil), w\<lparr>procs := h'\<rparr>))
           else if confirming m \<and> (s = ''n'' \<or> s = ''N'' \<or> s = ''esc'')
           then ((m\<lparr>status := ''cancelled'', confirming := False, action := []\<rparr>, CmdNil), w)
           else keySwitch e m s w)
      | TickMsg t \<Rightarrow> ((m, CmdBatch [CmdTick]), w)
      | StatusMsg s \<Rightarrow> ((m\<lparr>status := s\<rparr>, CmdNil), w)
      | OtherMsg \<Rightarrow> ((m, CmdNil), w))"

text \<open>The command built by \<open>readLine(target)\<close>, run by the framework once the user has
  entered the word \<open>s\<close>: it stores \<open>s\<close> through \<open>target\<close> and yields the message
  \<open>statusMsg("filter applied")\<close>.\<close>

definition readLine :: "nat \<Rightarrow> string \<Rightarrow> world \<Rightarrow> Msg \<times> world" where
  "readLine target s w =
     (StatusMsg ''filter applied'',
      w\<lparr>heap := (heap w)[target := (heap w ! target)\<lparr>search := s\<rparr>]\<rparr>)"

text \<open>The framework's loop for one message: the model it holds is replaced by the one
  \<open>Update\<close> returns.\<close>

definition deliver :: "env \<Rightarrow> Msg \<Rightarrow> model \<times> world \<Rightarrow> model \<times> world" where
  "deliver e msg mw =
     (case Update e (fst mw) msg (snd mw) of ((m', c), w') \<Rightarrow> (m', w'))"

text \<open>A search from the key \<open>/\<close> to the message that reports it: the key is delivered, the
  returned command runs with the entered word, its message is delivered.\<close>

definition searchFlow :: "env \<Rightarrow> string \<Rightarrow> model \<times> world \<Rightarrow> model \<times> world" where
  "searchFlow e s mw =
     (case Update e (fst mw) (KeyMsg ''/'') (snd mw) of
        ((m1, CmdReadLine target), w1) \<Rightarrow>
          (case readLine target s w1 of (msg, w2) \<Rightarrow> deliver e msg (m1, w2))
      | ((m1, c), w1) \<Rightarrow> (m1, w1))"

subsection \<open>Statements about the ranking\<close>

text \<open>The activity time in the words of the specification: the greatest of the candidates
  that are present.\<close>

definition activityTime_spec :: "Time \<Rightarrow> Time option \<Rightarrow> Time option \<Rightarrow> Time" where
  "activityTime_spec tip localWork upstream =
     Max ({tip} \<union> set_option localWork \<union> set_option upstream)"

text \<open>The time a date text denotes. An attempt is a layout and a text; the first attempt
  that \<open>time.Parse\<close> accepts gives the time, and a text that no attempt accepts denotes
  no time.\<close>

fun firstAccepted :: "env \<Rightarrow> (string \<times> string) list \<Rightarrow> Time option" where
  "firstAccepted e [] = None"
| "firstAccepted e ((layout, s) # attempts) =
     (case time_Parse e layout s of
        Some t \<Rightarrow> Some t
      | None \<Rightarrow> firstAccepted e attempts)"

text \<open>The tip commit time of a listing line: its date field without the surrounding white
  space, in the strict layout or in one of the layouts of \<open>git\<close>.\<close>

definition tipTime_spec :: "env \<Rightarrow> string \<Rightarrow> Time option" where
  "tipTime_spec e field =
     firstAccepted e
       (map (\<lambda>layout. (layout, strings_TrimSpace e field)) (RFC3339 # gitDateLayouts))"

text \<open>The time of a date taken from a reflog selector or from the listing of remote refs:
  the text as it stands in the strict layout, or without surrounding white space in one of
  the layouts of \<open>git\<close>.\<close>

definition dateTime_spec :: "env \<Rightarrow> string \<Rightarrow> Time option" where
  "dateTime_spec e d =
     firstAccepted e
       ((RFC3339, d) # map (\<lambda>layout. (layout, strings_TrimSpace e d)) gitDateLayouts)"

text \<open>The local-work candidate, from what the reflog command answered: absent when the
  command failed or printed nothing, when the answer holds no selector with a date of at
  least one byte in braces, or when that date denotes no time; otherwise the time of the
  date between the first \<open>atBrace\<close> and the last closing brace.\<close>

definition reflogCandidate_spec :: "env \<Rightarrow> string + string \<Rightarrow> Time option" where
  "reflogCandidate_spec e answer =
     (case answer of
        Inl err \<Rightarrow> None
      | Inr out \<Rightarrow>
          (let line = strings_TrimSpace e out;
               i = strings_Index line atBrace;
               j = strings_LastIndex line ''}''
           in if out \<noteq> [] \<and> i \<noteq> - 1 \<and> j \<noteq> - 1 \<and> i + 2 < j
              then dateTime_spec e (substr line (i + 2) j)
              else None))"

text \<open>The entries of the listing of remote refs, in the order of the listing: a line with
  a name, a tab and a date that denotes a time gives the name without surrounding white
  space and that time; any other line gives nothing.\<close>

definition remoteEntries_spec :: "env \<Rightarrow> string \<Rightarrow> (string \<times> Time) list" where
  "remoteEntries_spec e out =
     List.map_filter
       (\<lambda>line. case strings_SplitN2 line tab of
                 [n, d] \<Rightarrow>
                   map_option (\<lambda>t. (strings_TrimSpace e n, t))
                     (dateTime_spec e (strings_TrimSpace e d))
               | _ \<Rightarrow> None)
       (fst (scanLines e out))"

text \<open>The table of remote tip times, from what the listing command answered: empty when
  the command failed or printed nothing; otherwise each name has the time of its last
  entry.\<close>

definition remoteRefTimes_spec :: "env \<Rightarrow> string + string \<Rightarrow> (string \<rightharpoonup> Time)" where
  "remoteRefTimes_spec e answer =
     (case answer of
        Inl err \<Rightarrow> Map.empty
      | Inr out \<Rightarrow> if out = [] then Map.empty else map_of (rev (remoteEntries_spec e out)))"

text \<open>The upstream candidate of a listing line, from its upstream field and the answer of
  the listing of remote refs. The field names a ref in full, \<open>refs/remotes/origin/x\<close>, or
  in short, \<open>origin/x\<close>; the table is keyed by short names. The candidate is absent when
  the field names no ref or the table has no time for the ref.\<close>

definition upstreamCandidate_spec :: "env \<Rightarrow> string + string \<Rightarrow> string \<Rightarrow> Time option" where
  "upstreamCandidate_spec e remoteAnswer field =
     (let us = strings_TrimSpace e field;
          short = (if take 13 us = ''refs/remotes/'' then drop 13 us else us)
      in if short = [] then None else remoteRefTimes_spec e remoteAnswer short)"

text \<open>The activity times that a run owes to the lines \<open>lines\<close> of the branch listing, in
  their order. \<open>remoteAnswer\<close> is the answer to the listing of remote refs and \<open>hist\<close> the
  history of commands at the moment the reflog of the first line is asked for; the reflog
  of each further line is asked for after those of the lines before it. A line whose tip
  date denotes no time has no activity time.\<close>

fun expectedActivity_spec ::
  "env \<Rightarrow> string + string \<Rightarrow> string list \<Rightarrow> proclog \<Rightarrow> Time option list" where
  "expectedActivity_spec e remoteAnswer [] hist = []"
| "expectedActivity_spec e remoteAnswer (line # rest) hist =
     map_option
       (\<lambda>tip. activityTime_spec tip
          (reflogCandidate_spec e (runProcess e hist (reflogArgs (strings_Split line tab ! 0))))
          (upstreamCandidate_spec e remoteAnswer (strings_Split line tab ! 3)))
       (tipTime_spec e (strings_Split line tab ! 2))
     # expectedActivity_spec e remoteAnswer rest
         (hist @ [reflogArgs (strings_Split line tab ! 0)])"

text \<open>The lines of a listing that the scanning loop does not skip.\<close>

definition branchLines :: "string list \<Rightarrow> string list" where
  "branchLines lines = filter (\<lambda>l. 4 \<le> length (strings_Split l tab)) lines"

subsection \<open>Statements about the session\<close>

definition cursorOK :: "model \<Rightarrow> bool" where
  "cursorOK m =
     (if filtered m = [] then cursor m = 0
      else 0 \<le> cursor m \<and> cursor m < int (length (filtered m)))"

text \<open>The session after a sequence of messages.\<close>

definition run :: "env \<Rightarrow> Msg list \<Rightarrow> model \<times> world \<Rightarrow> model \<times> world" where
  "run e msgs mw = foldl (\<lambda>s msg. deliver e msg s) mw msgs"

subsection \<open>A concrete repository\<close>

text \<open>An environment to evaluate the program in: three local branches, \<open>main\<close> checked out,
  \<open>feature\<close> with a reflog entry and an upstream, \<open>hotfix\<close> with neither. Checking out and
  deleting succeed; merging and fetching fail.\<close>

definition isSpaceASCII :: "char \<Rightarrow> bool" where
  "isSpaceASCII c = (c \<in> set [CHR '' '', CHR 0x09, CHR 0x0A, CHR 0x0B, CHR 0x0C, CHR 0x0D])"

definition trimASCII :: "string \<Rightarrow> string" where
  "trimASCII s = rev (dropWhile isSpaceASCII (rev (dropWhile isSpaceASCII s)))"

definition dropCR :: "string \<Rightarrow> string" where
  "dropCR s = (if s \<noteq> [] \<and> last s = CHR 0x0D then butlast s else s)"

definition linesOf :: "string \<Rightarrow> string list \<times> string option" where
  "linesOf out =
     (let ls = strings_Split out (CHR 0x0A)
      in (map dropCR (if last ls = [] then butlast ls else ls), None))"

fun isSubsequence :: "string \<Rightarrow> string \<Rightarrow> bool" where
  "isSubsequence [] t = True"
| "isSubsequence (c # cs) [] = False"
| "isSubsequence (c # cs) (d # ds) =
     (if c = d then isSubsequence cs ds else isSubsequence (c # cs) ds)"

definition demoDates :: "(string \<times> Time) list" where
  "demoDates =
     [(''2024-01-01T00:00:00Z'', 1704067200000000000),
      (''2023-06-01T00:00:00Z'', 1685577600000000000),
      (''2022-03-01T00:00:00Z'', 1646092800000000000),
      (''2024-05-01T00:00:00Z'', 1714521600000000000),
      (''2024-06-01T00:00:00Z'', 1717200000000000000)]"

definition demoParse :: "string \<Rightarrow> string \<Rightarrow> Time option" where
  "demoParse layout s = (if layout = RFC3339 then map_of demoDates s else None)"

definition demoHeads :: string where
  "demoHeads =
     ''main'' @ [tab] @ ''1111111aaaaaaa'' @ [tab] @ ''2024-01-01T00:00:00Z'' @ [tab] @
        [CHR 0x0A] @
     ''feature'' @ [tab] @ ''2222222bbbbbbb'' @ [tab] @ ''2023-06-01T00:00:00Z'' @ [tab] @
        ''refs/remotes/origin/feature'' @ [CHR 0x0A] @
     ''hotfix'' @ [tab] @ ''3333333ccccccc'' @ [tab] @ ''2022-03-01T00:00:00Z'' @ [tab] @
        [CHR 0x0A]"

definition demoProcess :: "proclog \<Rightarrow> string list \<Rightarrow> string + string" where
  "demoProcess h args =
     (if args = forEachRefHeads then Inr demoHeads
      else if args = revParseHead then Inr (''main'' @ [CHR 0x0A])
      else if take 2 args = [''git'', ''for-each-ref'']
        then Inr (''origin/feature'' @ [tab] @ ''2024-05-01T00:00:00Z'' @ [CHR 0x0A])
      else if args = reflogArgs ''feature''
        then Inr (''refs/heads/feature'' @ atBrace @ ''2024-06-01T00:00:00Z}'' @ [CHR 0x0A])
      else if take 2 args = [''git'', ''reflog''] then Inr []
      else if take 2 args = [''git'', ''checkout''] then Inr []
      else if take 2 args = [''git'', ''branch''] then Inr []
      else Inl ''exit status 1'')"

definition demoEnv :: env where
  "demoEnv =
     \<lparr>runProcess = demoProcess, time_Parse = demoParse, strings_TrimSpace = trimASCII,
      scanLines = linesOf,
      fuzzy_FindNormalizedFold = (\<lambda>source targets. filter (isSubsequence source) targets)\<rparr>"

definition bFeature :: Branch where
  "bFeature = \<lparr>Name = ''feature'', CommitHash = ''2222222bbbbbbb'',
     CommitTime = 1717200000000000000, IsCurrent = False, HasUpstream = True\<rparr>"

definition bMain :: Branch where
  "bMain = \<lparr>Name = ''main'', CommitHash = ''1111111aaaaaaa'',
     CommitTime = 1704067200000000000, IsCurrent = True, HasUpstream = False\<rparr>"

definition bHotfix :: Branch where
  "bHotfix = \<lparr>Name = ''hotfix'', CommitHash = ''3333333ccccccc'',
     CommitTime = 1646092800000000000, IsCurrent = False, HasUpstream = False\<rparr>"

text \<open>The commands one run of \<open>getRecentBranches\<close> issues in this repository.\<close>

definition demoLog :: proclog where
  "demoLog =
     [forEachRefHeads, revParseHead, forEachRefRemotes,
      reflogArgs ''main'', reflogArgs ''feature'', reflogArgs ''hotfix'']"

text \<open>The same repository with a listing whose only line has a tip date that no layout
  accepts, a reflog entry and a remote tip whose dates parse.\<close>

definition badTipEnv :: env where
  "badTipEnv =
     demoEnv\<lparr>runProcess :=
       (\<lambda>h args.
          if args = forEachRefHeads
          then Inr (''feature'' @ [tab] @ ''2222222bbbbbbb'' @ [tab] @ ''yesterday'' @ [tab] @
                    ''refs/remotes/origin/feature'' @ [CHR 0x0A])
          else demoProcess h args)\<rparr>"

text \<open>The same repository with every external command failing.\<close>

definition failEnv :: env where
  "failEnv = demoEnv\<lparr>runProcess := (\<lambda>h args. Inl ''exit status 1'')\<rparr>"

definition world0 :: world where
  "world0 = \<lparr>procs = [], heap = []\<rparr>"

text \<open>The session as it starts on the ranking of the concrete repository.\<close>

definition model0 :: model where
  "model0 = initialModel demoEnv [bFeature, bMain, bHotfix]"

text \<open>The same repository with a reflog and a table of remote tips whose dates no layout
  accepts.\<close>

definition staleReflogLine :: string where
  "staleReflogLine = ''refs/heads/feature'' @ atBrace @ ''last week}''"

definition staleEnv :: env where
  "staleEnv =
     demoEnv\<lparr>runProcess :=
       (\<lambda>h args.
          if take 2 args = [''git'', ''reflog'']
          then Inr (staleReflogLine @ [CHR 0x0A])
          else if take 2 args = [''git'', ''for-each-ref''] \<and> args \<noteq> forEachRefHeads
          then Inr (''origin/feature'' @ [tab] @ ''last week'' @ [CHR 0x0A])
          else demoProcess h args)\<rparr>"

text \<open>The session after the cursor has moved to \<open>main\<close> and a delete has been requested.\<close>

definition deleteMainRequested :: model where
  "deleteMainRequested = fst (run demoEnv [KeyMsg ''j'', KeyMsg ''x''] (model0, world0))"

text \<open>A session that started before \<open>feature\<close> existed, and sessions in which a delete and
  a merge of \<open>feature\<close> have been requested.\<close>

definition olderModel :: model where
  "olderModel = initialModel demoEnv [bMain, bHotfix]"

definition deleteFeatureRequested :: model where
  "deleteFeatureRequested = fst (run demoEnv [KeyMsg ''x''] (model0, world0))"

definition mergeFeatureRequested :: model where
  "mergeFeatureRequested = fst (run demoEnv [KeyMsg ''m''] (model0, world0))"

text \<open>The same three branches with other reflogs and remote tips, so that each kind of
  candidate decides once: \<open>main\<close> has no reflog entry and no upstream; \<open>feature\<close> has a
  reflog entry of 2024-05-01 and an upstream whose tip is of 2024-06-01; \<open>hotfix\<close> has a
  reflog entry of 2024-05-01 and no upstream.\<close>

definition upstreamEnv :: env where
  "upstreamEnv =
     demoEnv\<lparr>runProcess :=
       (\<lambda>h args.
          if args = forEachRefRemotes
          then Inr (''origin/feature'' @ [tab] @ ''2024-06-01T00:00:00Z'' @ [CHR 0x0A])
          else if args = reflogArgs ''feature''
          then Inr (''refs/heads/feature'' @ atBrace @ ''2024-05-01T00:00:00Z}'' @ [CHR 0x0A])
          else if args = reflogArgs ''hotfix''
          then Inr (''refs/heads/hotfix'' @ atBrace @ ''2024-05-01T00:00:00Z}'' @ [CHR 0x0A])
          else demoProcess h args)\<rparr>"

text \<open>The same three branches with a reflog entry of 2024-01-01 for \<open>hotfix\<close>, the tip date
  of \<open>main\<close>: two branches with one and the same activity time, \<open>main\<close> listed first.\<close>

definition tieEnv :: env where
  "tieEnv =
     demoEnv\<lparr>runProcess :=
       (\<lambda>h args.
          if args = reflogArgs ''hotfix''
          then Inr (''refs/heads/hotfix'' @ atBrace @ ''2024-01-01T00:00:00Z}'' @ [CHR 0x0A])
          else demoProcess h args)\<rparr>"

section \<open>The ranking\<close>

subsection \<open>The stable sort\<close>

lemma set_insertStable: "set (insertStable lt x ys) = insert x (set ys)"
  by (induction ys) auto

lemma length_insertStable: "length (insertStable lt x ys) = Suc (length ys)"
  by (induction ys) auto

lemma set_sort_SliceStable: "set (sort_SliceStable lt xs) = set xs"
  by (induction xs) (simp_all add: sort_SliceStable_def set_insertStable)

lemma length_sort_SliceStable: "length (sort_SliceStable lt xs) = length xs"
  by (induction xs) (simp_all add: sort_SliceStable_def length_insertStable)

lemma count_insertStable: "count_list (insertStable lt x ys) y = count_list (x # ys) y"
  by (induction ys) auto

lemma count_sort_SliceStable: "count_list (sort_SliceStable lt xs) y = count_list xs y"
  by (induction xs) (simp_all add: sort_SliceStable_def count_insertStable)

lemma sorted_insertStable:
  fixes f :: "'a \<Rightarrow> int"
  assumes "sorted_wrt (\<lambda>a b. f a \<ge> f b) ys"
  shows "sorted_wrt (\<lambda>a b. f a \<ge> f b) (insertStable (\<lambda>a b. f a > f b) x ys)"
  using assms by (induction ys) (auto simp: set_insertStable)

lemma sorted_sort_SliceStable:
  fixes f :: "'a \<Rightarrow> int"
  shows "sorted_wrt (\<lambda>a b. f a \<ge> f b) (sort_SliceStable (\<lambda>a b. f a > f b) xs)"
proof (induction xs)
  case Nil
  show ?case by (simp add: sort_SliceStable_def)
next
  case (Cons x xs)
  then show ?case
    using sorted_insertStable [of f "sort_SliceStable (\<lambda>a b. f a > f b) xs" x]
    by (simp add: sort_SliceStable_def)
qed

text \<open>Inserting \<open>x\<close> into a descending list moves it only past elements with a greater key,
  so among the elements with one key \<open>x\<close> stays in front.\<close>

lemma filter_insertStable:
  fixes f :: "'a \<Rightarrow> int"
  assumes "sorted_wrt (\<lambda>a b. f a \<ge> f b) ys"
  shows "filter (\<lambda>b. f b = k) (insertStable (\<lambda>a b. f a > f b) x ys) =
         (if f x = k then x # filter (\<lambda>b. f b = k) ys else filter (\<lambda>b. f b = k) ys)"
  using assms
proof (induction ys)
  case Nil
  show ?case by simp
next
  case (Cons y ys)
  show ?case
  proof (cases "f y > f x")
    case True
    with Cons show ?thesis by auto
  next
    case False
    then show ?thesis by simp
  qed
qed

lemma stable_sort_SliceStable:
  fixes f :: "'a \<Rightarrow> int"
  shows "filter (\<lambda>b. f b = k) (sort_SliceStable (\<lambda>a b. f a > f b) xs) =
         filter (\<lambda>b. f b = k) xs"
proof (induction xs)
  case Nil
  show ?case by (simp add: sort_SliceStable_def)
next
  case (Cons x xs)
  have "sort_SliceStable (\<lambda>a b. f a > f b) (x # xs) =
        insertStable (\<lambda>a b. f a > f b) x (sort_SliceStable (\<lambda>a b. f a > f b) xs)"
    by (simp add: sort_SliceStable_def)
  with Cons show ?case
    by (simp add: filter_insertStable [OF sorted_sort_SliceStable])
qed

subsection \<open>The scanning loop\<close>

lemma scanBranches_Inr:
  "scanBranches e cur rts lines acc h = (Inr bs, h') \<Longrightarrow>
   \<exists>new. bs = acc @ new \<and>
      map Name new = map (\<lambda>l. strings_Split l tab ! 0) (branchLines lines)"
proof (induction lines arbitrary: acc h)
  case Nil
  then show ?case by (simp add: branchLines_def)
next
  case (Cons line rest)
  show ?case
  proof (cases "length (strings_Split line tab) < 4")
    case True
    with Cons.prems have "scanBranches e cur rts rest acc h = (Inr bs, h')" by simp
    from Cons.IH [OF this] True show ?thesis by (auto simp: branchLines_def)
  next
    case False
    let ?fs = "strings_Split line tab"
    from False Cons.prems obtain tip where tip: "parseTip e (?fs ! 2) = Inr tip"
      by (cases "parseTip e (?fs ! 2)") (auto simp: Let_def)
    obtain r h1 where r: "getBranchReflogLatestTime e (?fs ! 0) h = (r, h1)"
      by (cases "getBranchReflogLatestTime e (?fs ! 0) h")
    let ?us = "normalizeUpstream e (?fs ! 3)"
    let ?b = "\<lparr>Name = ?fs ! 0, CommitHash = ?fs ! 1,
               CommitTime = fuseUpstream (fuseReflog tip r) ?us rts,
               IsCurrent = (?fs ! 0 = cur), HasUpstream = (?us \<noteq> [])\<rparr>"
    from False Cons.prems tip r
    have "scanBranches e cur rts rest (acc @ [?b]) h1 = (Inr bs, h')"
      by (simp add: Let_def)
    from Cons.IH [OF this] obtain new where
      new: "bs = (acc @ [?b]) @ new"
        "map Name new = map (\<lambda>l. strings_Split l tab ! 0) (branchLines rest)"
      by blast
    with False show ?thesis
      by (intro exI [of _ "?b # new"]) (simp add: branchLines_def)
  qed
qed

lemma scanBranches_isl:
  "isl (fst (scanBranches e cur rts lines acc h)) \<longleftrightarrow>
   (\<exists>line\<in>set lines. 4 \<le> length (strings_Split line tab) \<and>
       isl (parseTip e (strings_Split line tab ! 2)))"
proof (induction lines arbitrary: acc h)
  case Nil
  show ?case by simp
next
  case (Cons line rest)
  show ?case
  proof (cases "length (strings_Split line tab) < 4")
    case True
    then show ?thesis using Cons.IH by auto
  next
    case False
    show ?thesis
    proof (cases "parseTip e (strings_Split line tab ! 2)")
      case (Inl err)
      with False show ?thesis by (auto simp: Let_def)
    next
      case (Inr tip)
      with False show ?thesis
        using Cons.IH by (auto simp: Let_def split: prod.splits)
    qed
  qed
qed

text \<open>A successful run of \<open>getRecentBranches\<close>: the listing was read, the loop produced a
  list \<open>bs0\<close> in the order of the listing, and the result is \<open>bs0\<close> sorted.\<close>

lemma getRecentBranches_Inr:
  assumes "getRecentBranches e h = (Inr bs, h')"
    and "runProcess e h forEachRefHeads = Inr out"
  shows "\<exists>bs0 cur h2 h3.
           scanBranches e cur (fst (getRemoteBranchTimes e h2)) (fst (scanLines e out)) [] h3
             = (Inr bs0, h') \<and>
           bs = sort_SliceStable (\<lambda>a b. CommitTime a > CommitTime b) bs0"
proof -
  obtain cur cerr h2 where cb: "getCurrentBranch e (h @ [forEachRefHeads]) = ((cur, cerr), h2)"
    by (metis surj_pair)
  obtain rts h3 where rt: "getRemoteBranchTimes e h2 = (rts, h3)"
    by (metis surj_pair)
  obtain r h4 where sc: "scanBranches e cur rts (fst (scanLines e out)) [] h3 = (r, h4)"
    by (metis surj_pair)
  from assms cb rt sc obtain bs0 where
    "r = Inr bs0" "h4 = h'" "bs = sort_SliceStable (\<lambda>a b. CommitTime a > CommitTime b) bs0"
    by (cases r; cases "snd (scanLines e out)")
       (auto simp: getRecentBranches_def exec_def)
  with sc rt show ?thesis
    by (metis fst_conv)
qed

subsection \<open>The candidates as the program computes them\<close>

lemma tryLayouts_firstAccepted:
  "tryLayouts e layouts s =
   firstAccepted e (map (\<lambda>layout. (layout, strings_TrimSpace e s)) layouts)"
  by (induction layouts) (simp_all split: option.splits)

lemma parseTip_spec:
  "parseTip e s =
   (case tipTime_spec e s of
      Some t \<Rightarrow> Inr t
    | None \<Rightarrow> Inl (''unrecognized date: '' @ s))"
  by (simp add: parseTip_def parseGitDate_def tipTime_spec_def tryLayouts_firstAccepted
      split: option.splits)

lemma lenient_parse_spec:
  "(case time_Parse e RFC3339 d of
      Some t \<Rightarrow> Some t
    | None \<Rightarrow> (case parseGitDate e d of Inr t \<Rightarrow> Some t | Inl err \<Rightarrow> None)) =
   dateTime_spec e d"
  by (simp add: parseGitDate_def dateTime_spec_def tryLayouts_firstAccepted
      split: option.splits)

lemma getBranchReflogLatestTime_spec:
  "getBranchReflogLatestTime e branch h =
   (reflogCandidate_spec e (runProcess e h (reflogArgs branch)), h @ [reflogArgs branch])"
proof (cases "runProcess e h (reflogArgs branch)")
  case (Inl err)
  then show ?thesis
    by (simp add: getBranchReflogLatestTime_def reflogCandidate_spec_def exec_def)
next
  case (Inr out)
  let ?line = "strings_TrimSpace e out"
  let ?d = "substr ?line (strings_Index ?line atBrace + 2) (strings_LastIndex ?line ''}'')"
  from lenient_parse_spec [of e ?d] Inr show ?thesis
    by (auto simp: getBranchReflogLatestTime_def reflogCandidate_spec_def exec_def Let_def
        split: option.splits sum.splits)
qed

lemma remoteLine_spec:
  "remoteLine e result line =
   (case strings_SplitN2 line tab of
      [n, d] \<Rightarrow>
        (case dateTime_spec e (strings_TrimSpace e d) of
           Some t \<Rightarrow> result(strings_TrimSpace e n \<mapsto> t)
         | None \<Rightarrow> result)
    | _ \<Rightarrow> result)"
proof -
  have two: "\<And>xs :: string list. length xs = 2 \<Longrightarrow> \<exists>n d. xs = [n, d]"
    by (metis (no_types, opaque_lifting) One_nat_def Suc_1 Suc_length_conv length_0_conv)
  show ?thesis
  proof (cases "length (strings_SplitN2 line tab) = 2")
    case True
    from two [OF this] obtain n d where nd: "strings_SplitN2 line tab = [n, d]" by blast
    from lenient_parse_spec [of e "strings_TrimSpace e d"] show ?thesis
      by (auto simp: remoteLine_def nd Let_def split: option.splits sum.splits)
  next
    case False
    then show ?thesis
      by (auto simp: remoteLine_def Let_def split: list.splits)
  qed
qed

lemma foldl_remoteLine:
  "foldl (remoteLine e) result lines =
   result ++ map_of (rev (List.map_filter
       (\<lambda>line. case strings_SplitN2 line tab of
                 [n, d] \<Rightarrow>
                   map_option (\<lambda>t. (strings_TrimSpace e n, t))
                     (dateTime_spec e (strings_TrimSpace e d))
               | _ \<Rightarrow> None) lines))"
proof (induction lines arbitrary: result)
  case Nil
  show ?case by (simp add: List.map_filter_simps)
next
  case (Cons line rest)
  let ?f = "\<lambda>line. case strings_SplitN2 line tab of
                 [n, d] \<Rightarrow>
                   map_option (\<lambda>t. (strings_TrimSpace e n, t))
                     (dateTime_spec e (strings_TrimSpace e d))
               | _ \<Rightarrow> None"
  show ?case
  proof (cases "?f line")
    case None
    then have "remoteLine e result line = result"
      by (auto simp: remoteLine_spec split: list.splits option.splits)
    with None Cons.IH [of result] show ?thesis
      by (simp add: List.map_filter_simps)
  next
    case (Some nt)
    obtain n t where nt: "nt = (n, t)" by (cases nt)
    with Some have "remoteLine e result line = result(n \<mapsto> t)"
      by (auto simp: remoteLine_spec split: list.splits option.splits)
    then have "foldl (remoteLine e) result (line # rest) =
        foldl (remoteLine e) (result(n \<mapsto> t)) rest"
      by simp
    also have "\<dots> = result(n \<mapsto> t) ++ map_of (rev (List.map_filter ?f rest))"
      by (rule Cons.IH)
    also have "result(n \<mapsto> t) = result ++ map_of [(n, t)]"
      by simp
    also have "(result ++ map_of [(n, t)]) ++ map_of (rev (List.map_filter ?f rest)) =
        result ++ map_of (rev (List.map_filter ?f rest) @ [(n, t)])"
      by (simp only: map_of_append map_add_assoc)
    also have "rev (List.map_filter ?f rest) @ [(n, t)] = rev (List.map_filter ?f (line # rest))"
      using Some nt by (simp add: List.map_filter_simps)
    finally show ?thesis .
  qed
qed

lemma getRemoteBranchTimes_spec:
  "getRemoteBranchTimes e h =
   (remoteRefTimes_spec e (runProcess e h forEachRefRemotes), h @ [forEachRefRemotes])"
  by (cases "runProcess e h forEachRefRemotes")
     (simp_all add: getRemoteBranchTimes_def remoteRefTimes_spec_def remoteEntries_spec_def
        exec_def foldl_remoteLine)

lemma getCurrentBranch_history: "snd (getCurrentBranch e h) = h @ [revParseHead]"
  by (cases "runProcess e h revParseHead")
     (simp_all add: getCurrentBranch_def exec_def Let_def)

lemma fuseUpstream_spec:
  "fuseUpstream t (normalizeUpstream e field) (remoteRefTimes_spec e answer) =
   Max ({t} \<union> set_option (upstreamCandidate_spec e answer field))"
proof -
  have len: "length ''refs/remotes/'' = 13" by simp
  show ?thesis
    by (cases "remoteRefTimes_spec e answer (normalizeUpstream e field)")
       (auto simp: fuseUpstream_def normalizeUpstream_def upstreamCandidate_spec_def Let_def
          strings_HasPrefix_def strings_TrimPrefix_def max_def len
          simp del: length_Cons list.size)
qed

lemma fuse_spec:
  "fuseUpstream (fuseReflog tip r) (normalizeUpstream e field) (remoteRefTimes_spec e answer) =
   activityTime_spec tip r (upstreamCandidate_spec e answer field)"
proof -
  have "fuseReflog tip r = Max ({tip} \<union> set_option r)"
    by (cases r) (simp_all add: fuseReflog_def max_def)
  then show ?thesis
    unfolding fuseUpstream_spec activityTime_spec_def
    by (cases r; cases "upstreamCandidate_spec e answer field") (simp_all add: max_def)
qed

text \<open>The scanning loop, started at history \<open>hist\<close> with the table of remote tips that
  belongs to \<open>answer\<close>, appends one record for each line it does not skip, with the activity
  time the line is owed.\<close>

lemma scanBranches_spec:
  "scanBranches e cur (remoteRefTimes_spec e answer) lines acc hist = (Inr bs, h') \<Longrightarrow>
   \<exists>new. bs = acc @ new \<and>
      map Name new = map (\<lambda>l. strings_Split l tab ! 0) (branchLines lines) \<and>
      map (\<lambda>b. Some (CommitTime b)) new =
        expectedActivity_spec e answer (branchLines lines) hist"
proof (induction lines arbitrary: acc hist)
  case Nil
  then show ?case by (simp add: branchLines_def)
next
  case (Cons line rest)
  show ?case
  proof (cases "length (strings_Split line tab) < 4")
    case True
    with Cons.prems
    have "scanBranches e cur (remoteRefTimes_spec e answer) rest acc hist = (Inr bs, h')"
      by simp
    from Cons.IH [OF this] True show ?thesis by (auto simp: branchLines_def)
  next
    case False
    let ?fs = "strings_Split line tab"
    let ?rts = "remoteRefTimes_spec e answer"
    from False Cons.prems obtain tip where tip: "tipTime_spec e (?fs ! 2) = Some tip"
      by (cases "tipTime_spec e (?fs ! 2)") (auto simp: Let_def parseTip_spec)
    then have ptip: "parseTip e (?fs ! 2) = Inr tip"
      by (simp add: parseTip_spec)
    let ?r = "reflogCandidate_spec e (runProcess e hist (reflogArgs (?fs ! 0)))"
    let ?us = "normalizeUpstream e (?fs ! 3)"
    let ?b = "\<lparr>Name = ?fs ! 0, CommitHash = ?fs ! 1,
               CommitTime = fuseUpstream (fuseReflog tip ?r) ?us ?rts,
               IsCurrent = (?fs ! 0 = cur), HasUpstream = (?us \<noteq> [])\<rparr>"
    from False Cons.prems ptip
    have "scanBranches e cur ?rts rest (acc @ [?b]) (hist @ [reflogArgs (?fs ! 0)]) = (Inr bs, h')"
      by (simp add: Let_def getBranchReflogLatestTime_spec)
    from Cons.IH [OF this] obtain new where
      new: "bs = (acc @ [?b]) @ new"
        "map Name new = map (\<lambda>l. strings_Split l tab ! 0) (branchLines rest)"
        "map (\<lambda>b. Some (CommitTime b)) new =
           expectedActivity_spec e answer (branchLines rest) (hist @ [reflogArgs (?fs ! 0)])"
      by blast
    have bl: "branchLines (line # rest) = line # branchLines rest"
      using False by (simp add: branchLines_def)
    have "map (\<lambda>b. Some (CommitTime b)) (?b # new) =
        expectedActivity_spec e answer (branchLines (line # rest)) hist"
      unfolding bl using new(3) tip by (simp add: fuse_spec)
    moreover have "map Name (?b # new) =
        map (\<lambda>l. strings_Split l tab ! 0) (branchLines (line # rest))"
      unfolding bl using new(2) by simp
    moreover have "bs = acc @ (?b # new)" using new(1) by simp
    ultimately show ?thesis by blast
  qed
qed

text \<open>A successful run of \<open>getRecentBranches\<close> from history \<open>h\<close>: the listing of branches,
  the current branch and the listing of remote refs are asked for in this order, then the
  loop runs, and its list \<open>bs0\<close> is sorted.\<close>

lemma getRecentBranches_run:
  assumes "getRecentBranches e h = (Inr bs, h')"
    and "runProcess e h forEachRefHeads = Inr out"
  shows "\<exists>bs0 cur.
           scanBranches e cur
             (remoteRefTimes_spec e
                (runProcess e (h @ [forEachRefHeads, revParseHead]) forEachRefRemotes))
             (fst (scanLines e out)) []
             (h @ [forEachRefHeads, revParseHead, forEachRefRemotes])
             = (Inr bs0, h') \<and>
           bs = sort_SliceStable (\<lambda>a b. CommitTime a > CommitTime b) bs0"
proof -
  let ?h2 = "h @ [forEachRefHeads, revParseHead]"
  let ?h3 = "h @ [forEachRefHeads, revParseHead, forEachRefRemotes]"
  let ?rts = "remoteRefTimes_spec e (runProcess e ?h2 forEachRefRemotes)"
  obtain cur cerr where cb: "getCurrentBranch e (h @ [forEachRefHeads]) = ((cur, cerr), ?h2)"
    using getCurrentBranch_history [of e "h @ [forEachRefHeads]"]
    by (cases "getCurrentBranch e (h @ [forEachRefHeads])") auto
  have rt: "getRemoteBranchTimes e ?h2 = (?rts, ?h3)"
    by (simp add: getRemoteBranchTimes_spec)
  obtain r h4 where sc: "scanBranches e cur ?rts (fst (scanLines e out)) [] ?h3 = (r, h4)"
    by (metis surj_pair)
  from assms cb rt sc obtain bs0 where
    "r = Inr bs0" "h4 = h'" "bs = sort_SliceStable (\<lambda>a b. CommitTime a > CommitTime b) bs0"
    by (cases r; cases "snd (scanLines e out)")
       (auto simp: getRecentBranches_def exec_def)
  with sc show ?thesis by blast
qed

subsection \<open>Claims about the ranking\<close>

text \<open>Claim C1. A successful run of \<open>getRecentBranches\<close> returns, in some order and each
  exactly once, the records of a list \<open>bs0\<close> that has one record for each line of the
  branch listing that is not skipped, in the order of the listing and with the name of the
  line. The time of each record is the greatest of the candidates of its line that are
  present: the time its tip date denotes; the time of the date in the answer that the
  reflog command gave for the branch when the run asked it, if there is one; and the time
  that the answer to the listing of remote refs, as the run asked it, holds for the ref
  named in the upstream field of the line, if the field names a ref and the answer has it.
  An absent candidate takes no part in the maximum.\<close>

theorem activityTime_is_max_of_present:
  assumes "getRecentBranches e h = (Inr bs, h')"
    and "runProcess e h forEachRefHeads = Inr out"
  shows "\<exists>bs0.
           (\<forall>b. count_list bs b = count_list bs0 b) \<and>
           map Name bs0 =
             map (\<lambda>l. strings_Split l tab ! 0) (branchLines (fst (scanLines e out))) \<and>
           map (\<lambda>b. Some (CommitTime b)) bs0 =
             expectedActivity_spec e
               (runProcess e (h @ [forEachRefHeads, revParseHead]) forEachRefRemotes)
               (branchLines (fst (scanLines e out)))
               (h @ [forEachRefHeads, revParseHead, forEachRefRemotes])"
proof -
  from getRecentBranches_run [OF assms] obtain bs0 cur where
    sc: "scanBranches e cur
           (remoteRefTimes_spec e
              (runProcess e (h @ [forEachRefHeads, revParseHead]) forEachRefRemotes))
           (fst (scanLines e out)) []
           (h @ [forEachRefHeads, revParseHead, forEachRefRemotes])
           = (Inr bs0, h')"
    and bs: "bs = sort_SliceStable (\<lambda>a b. CommitTime a > CommitTime b) bs0"
    by blast
  from scanBranches_spec [OF sc]
  have "map Name bs0 =
          map (\<lambda>l. strings_Split l tab ! 0) (branchLines (fst (scanLines e out)))"
    and "map (\<lambda>b. Some (CommitTime b)) bs0 =
          expectedActivity_spec e
            (runProcess e (h @ [forEachRefHeads, revParseHead]) forEachRefRemotes)
            (branchLines (fst (scanLines e out)))
            (h @ [forEachRefHeads, revParseHead, forEachRefRemotes])"
    by simp_all
  moreover have "\<forall>b. count_list bs b = count_list bs0 b"
    unfolding bs by (simp add: count_sort_SliceStable)
  ultimately show ?thesis by blast
qed

text \<open>In the repository where each kind of candidate decides once: the upstream tip of
  2024-06-01 decides for \<open>feature\<close> against its tip of 2023-06-01 and its reflog entry of
  2024-05-01, the reflog entry decides for \<open>hotfix\<close>, the tip for \<open>main\<close>.\<close>

lemma upstream_ranking:
  "getRecentBranches upstreamEnv [] =
     (Inr [bFeature, bHotfix\<lparr>CommitTime := 1714521600000000000\<rparr>, bMain], demoLog)"
  by code_simp

lemma upstream_listing: "runProcess upstreamEnv [] forEachRefHeads = Inr demoHeads"
  by code_simp

lemma upstream_candidates:
  "tipTime_spec upstreamEnv ''2023-06-01T00:00:00Z'' = Some 1685577600000000000 \<and>
   reflogCandidate_spec upstreamEnv
     (runProcess upstreamEnv
        [forEachRefHeads, revParseHead, forEachRefRemotes, reflogArgs ''main'']
        (reflogArgs ''feature'')) = Some 1714521600000000000 \<and>
   upstreamCandidate_spec upstreamEnv
     (runProcess upstreamEnv [forEachRefHeads, revParseHead] forEachRefRemotes)
     ''refs/remotes/origin/feature'' = Some 1717200000000000000 \<and>
   reflogCandidate_spec upstreamEnv
     (runProcess upstreamEnv [forEachRefHeads, revParseHead, forEachRefRemotes]
        (reflogArgs ''main'')) = None \<and>
   upstreamCandidate_spec upstreamEnv
     (runProcess upstreamEnv [forEachRefHeads, revParseHead] forEachRefRemotes) [] = None"
  by code_simp

lemma activityTime_spec_cases:
  "activityTime_spec tip None None = tip"
  "activityTime_spec tip (Some a) None = max tip a"
  "activityTime_spec tip None (Some b) = max tip b"
  "activityTime_spec tip (Some a) (Some b) = max tip (max a b)"
  by (simp_all add: activityTime_spec_def max_def)

lemma upstream_expected:
  "expectedActivity_spec upstreamEnv
     (runProcess upstreamEnv ([] @ [forEachRefHeads, revParseHead]) forEachRefRemotes)
     (branchLines (fst (scanLines upstreamEnv demoHeads)))
     ([] @ [forEachRefHeads, revParseHead, forEachRefRemotes]) =
   [Some 1704067200000000000, Some 1717200000000000000, Some 1714521600000000000]"
  by code_simp

lemma upstream_names:
  "map (\<lambda>l. strings_Split l tab ! 0) (branchLines (fst (scanLines upstreamEnv demoHeads))) =
   [''main'', ''feature'', ''hotfix'']"
  by code_simp

theorem activityTime_is_max_of_present_witness:
  "getRecentBranches upstreamEnv [] =
     (Inr [bFeature, bHotfix\<lparr>CommitTime := 1714521600000000000\<rparr>, bMain], demoLog) \<and>
   runProcess upstreamEnv [] forEachRefHeads = Inr demoHeads \<and>
   (\<exists>bs0.
      (\<forall>b. count_list [bFeature, bHotfix\<lparr>CommitTime := 1714521600000000000\<rparr>, bMain] b =
           count_list bs0 b) \<and>
      map Name bs0 = [''main'', ''feature'', ''hotfix''] \<and>
      map (\<lambda>b. Some (CommitTime b)) bs0 =
        [Some 1704067200000000000, Some 1717200000000000000, Some 1714521600000000000])"
proof -
  have "\<exists>bs0.
      (\<forall>b. count_list [bFeature, bHotfix\<lparr>CommitTime := 1714521600000000000\<rparr>, bMain] b =
           count_list bs0 b) \<and>
      map Name bs0 = [''main'', ''feature'', ''hotfix''] \<and>
      map (\<lambda>b. Some (CommitTime b)) bs0 =
        [Some 1704067200000000000, Some 1717200000000000000, Some 1714521600000000000]"
    using activityTime_is_max_of_present [OF upstream_ranking upstream_listing]
    unfolding upstream_expected upstream_names .
  with upstream_ranking upstream_listing show ?thesis
    by - (intro conjI; assumption)
qed

text \<open>Claim C8. The result of \<open>getRecentBranches\<close> is the list \<open>bs0\<close> of records in the order
  of the listing, rearranged so that activity times descend; the records with one and the
  same activity time appear in the result in the order they have in \<open>bs0\<close>.\<close>

theorem ranking_is_stable_descending:
  assumes "getRecentBranches e h = (Inr bs, h')"
    and "runProcess e h forEachRefHeads = Inr out"
  shows "\<exists>bs0.
           map Name bs0 = map (\<lambda>l. strings_Split l tab ! 0) (branchLines (fst (scanLines e out))) \<and>
           set bs = set bs0 \<and> length bs = length bs0 \<and>
           sorted_wrt (\<lambda>a b. CommitTime a \<ge> CommitTime b) bs \<and>
           (\<forall>t. filter (\<lambda>b. CommitTime b = t) bs = filter (\<lambda>b. CommitTime b = t) bs0)"
proof -
  from getRecentBranches_Inr [OF assms] obtain bs0 cur h2 h3 where
    sc: "scanBranches e cur (fst (getRemoteBranchTimes e h2)) (fst (scanLines e out)) [] h3
           = (Inr bs0, h')"
    and bs: "bs = sort_SliceStable (\<lambda>a b. CommitTime a > CommitTime b) bs0"
    by blast
  from scanBranches_Inr [OF sc]
  have names: "map Name bs0 =
      map (\<lambda>l. strings_Split l tab ! 0) (branchLines (fst (scanLines e out)))"
    by simp
  have "sorted_wrt (\<lambda>a b. CommitTime a \<ge> CommitTime b) bs"
    unfolding bs by (rule sorted_sort_SliceStable)
  moreover have "\<forall>t. filter (\<lambda>b. CommitTime b = t) bs = filter (\<lambda>b. CommitTime b = t) bs0"
    unfolding bs by (simp add: stable_sort_SliceStable)
  moreover from bs have "set bs = set bs0" "length bs = length bs0"
    by (simp_all add: set_sort_SliceStable length_sort_SliceStable)
  ultimately show ?thesis using names by blast
qed

text \<open>In the repository where \<open>main\<close> and \<open>hotfix\<close> have one and the same activity time,
  2024-01-01, and \<open>main\<close> is listed first: \<open>feature\<close>, listed between them, moves to the
  front, and \<open>main\<close> stays in front of \<open>hotfix\<close>.\<close>

lemma tie_ranking:
  "getRecentBranches tieEnv [] =
     (Inr [bFeature, bMain, bHotfix\<lparr>CommitTime := 1704067200000000000\<rparr>], demoLog)"
  by code_simp

lemma tie_listing: "runProcess tieEnv [] forEachRefHeads = Inr demoHeads"
  by code_simp

lemma tie_names:
  "map (\<lambda>l. strings_Split l tab ! 0) (branchLines (fst (scanLines tieEnv demoHeads))) =
   [''main'', ''feature'', ''hotfix'']"
  by code_simp

lemma tie_times:
  "CommitTime bMain = 1704067200000000000 \<and>
   CommitTime (bHotfix\<lparr>CommitTime := 1704067200000000000\<rparr>) = CommitTime bMain \<and>
   CommitTime bFeature \<noteq> CommitTime bMain \<and>
   Name bMain = ''main'' \<and> Name bFeature = ''feature'' \<and>
   Name (bHotfix\<lparr>CommitTime := 1704067200000000000\<rparr>) = ''hotfix''"
  by (simp add: bMain_def bHotfix_def bFeature_def)

theorem ranking_is_stable_descending_witness:
  "getRecentBranches tieEnv [] =
     (Inr [bFeature, bMain, bHotfix\<lparr>CommitTime := 1704067200000000000\<rparr>], demoLog) \<and>
   runProcess tieEnv [] forEachRefHeads = Inr demoHeads \<and>
   CommitTime (bHotfix\<lparr>CommitTime := 1704067200000000000\<rparr>) = CommitTime bMain \<and>
   (\<exists>bs0.
      map Name bs0 = [''main'', ''feature'', ''hotfix''] \<and>
      set [bFeature, bMain, bHotfix\<lparr>CommitTime := 1704067200000000000\<rparr>] = set bs0 \<and>
      length [bFeature, bMain, bHotfix\<lparr>CommitTime := 1704067200000000000\<rparr>] = length bs0 \<and>
      sorted_wrt (\<lambda>a b. CommitTime a \<ge> CommitTime b)
        [bFeature, bMain, bHotfix\<lparr>CommitTime := 1704067200000000000\<rparr>] \<and>
      filter (\<lambda>b. CommitTime b = CommitTime bMain) bs0 =
        [bMain, bHotfix\<lparr>CommitTime := 1704067200000000000\<rparr>] \<and>
      (\<forall>t. filter (\<lambda>b. CommitTime b = t)
             [bFeature, bMain, bHotfix\<lparr>CommitTime := 1704067200000000000\<rparr>] =
           filter (\<lambda>b. CommitTime b = t) bs0))"
proof -
  let ?h = "bHotfix\<lparr>CommitTime := 1704067200000000000\<rparr>"
  have "\<exists>bs0.
      map Name bs0 = [''main'', ''feature'', ''hotfix''] \<and>
      set [bFeature, bMain, ?h] = set bs0 \<and> length [bFeature, bMain, ?h] = length bs0 \<and>
      sorted_wrt (\<lambda>a b. CommitTime a \<ge> CommitTime b) [bFeature, bMain, ?h] \<and>
      (\<forall>t. filter (\<lambda>b. CommitTime b = t) [bFeature, bMain, ?h] =
           filter (\<lambda>b. CommitTime b = t) bs0)"
    using ranking_is_stable_descending [OF tie_ranking tie_listing]
    unfolding tie_names .
  then obtain bs0 where
    n: "map Name bs0 = [''main'', ''feature'', ''hotfix'']"
    and s: "set [bFeature, bMain, ?h] = set bs0" "length [bFeature, bMain, ?h] = length bs0"
    and o: "sorted_wrt (\<lambda>a b. CommitTime a \<ge> CommitTime b) [bFeature, bMain, ?h]"
    and f: "\<forall>t. filter (\<lambda>b. CommitTime b = t) [bFeature, bMain, ?h] =
                filter (\<lambda>b. CommitTime b = t) bs0"
    by (elim exE conjE)
  from f have "filter (\<lambda>b. CommitTime b = CommitTime bMain) bs0 =
      filter (\<lambda>b. CommitTime b = CommitTime bMain) [bFeature, bMain, ?h]"
    by simp
  also have "\<dots> = [bMain, ?h]"
    using tie_times by simp
  finally have tie: "filter (\<lambda>b. CommitTime b = CommitTime bMain) bs0 = [bMain, ?h]" .
  have tt: "CommitTime ?h = CommitTime bMain"
    using tie_times by simp
  from n s o f tie tie_ranking tie_listing tt show ?thesis
    by - (intro conjI exI [of _ bs0]; assumption)
qed

text \<open>Claim C10. The three candidates treat a date that does not parse differently. When
  the listing of local branches was read, \<open>getRecentBranches\<close> returns an error exactly when
  some line that is not skipped has a tip date that neither \<open>time.Parse\<close> nor \<open>parseGitDate\<close>
  accepts, whatever the reflog and the remote tips hold. A reflog date that does not parse
  makes \<open>getBranchReflogLatestTime\<close> report no time, and a remote tip date that does not
  parse leaves the table of remote tips as it was: both are absent candidates, not errors.\<close>

theorem tip_parse_failure_fatal_others_absent:
  "(runProcess e h forEachRefHeads = Inr out \<and> snd (scanLines e out) = None \<longrightarrow>
      (isl (fst (getRecentBranches e h)) \<longleftrightarrow>
         (\<exists>line\<in>set (fst (scanLines e out)).
            4 \<le> length (strings_Split line tab) \<and>
            isl (parseTip e (strings_Split line tab ! 2))))) \<and>
   (runProcess e hr (reflogArgs branch) = Inr rout \<and> rout \<noteq> [] \<and>
    line = strings_TrimSpace e rout \<and>
    dateStr = substr line (strings_Index line atBrace + 2) (strings_LastIndex line ''}'') \<and>
    time_Parse e RFC3339 dateStr = None \<and> isl (parseGitDate e dateStr) \<longrightarrow>
      fst (getBranchReflogLatestTime e branch hr) = None) \<and>
   (strings_SplitN2 rline tab = [rname, rdate] \<and>
    time_Parse e RFC3339 (strings_TrimSpace e rdate) = None \<and>
    isl (parseGitDate e (strings_TrimSpace e rdate)) \<longrightarrow>
      remoteLine e result rline = result)"
proof (intro conjI impI)
  assume a: "runProcess e h forEachRefHeads = Inr out \<and> snd (scanLines e out) = None"
  obtain cur cerr h2 where cb: "getCurrentBranch e (h @ [forEachRefHeads]) = ((cur, cerr), h2)"
    by (metis surj_pair)
  obtain rts h3 where rt: "getRemoteBranchTimes e h2 = (rts, h3)"
    by (metis surj_pair)
  obtain r h4 where sc: "scanBranches e cur rts (fst (scanLines e out)) [] h3 = (r, h4)"
    by (metis surj_pair)
  from a cb rt sc have "isl (fst (getRecentBranches e h)) = isl r"
    by (cases r) (auto simp: getRecentBranches_def exec_def)
  also have "isl r = isl (fst (scanBranches e cur rts (fst (scanLines e out)) [] h3))"
    using sc by simp
  finally show "isl (fst (getRecentBranches e h)) \<longleftrightarrow>
         (\<exists>line\<in>set (fst (scanLines e out)).
            4 \<le> length (strings_Split line tab) \<and>
            isl (parseTip e (strings_Split line tab ! 2)))"
    by (simp only: scanBranches_isl)
next
  assume "runProcess e hr (reflogArgs branch) = Inr rout \<and> rout \<noteq> [] \<and>
    line = strings_TrimSpace e rout \<and>
    dateStr = substr line (strings_Index line atBrace + 2) (strings_LastIndex line ''}'') \<and>
    time_Parse e RFC3339 dateStr = None \<and> isl (parseGitDate e dateStr)"
  then show "fst (getBranchReflogLatestTime e branch hr) = None"
    by (cases "parseGitDate e dateStr")
       (auto simp: getBranchReflogLatestTime_def exec_def Let_def)
next
  assume "strings_SplitN2 rline tab = [rname, rdate] \<and>
    time_Parse e RFC3339 (strings_TrimSpace e rdate) = None \<and>
    isl (parseGitDate e (strings_TrimSpace e rdate))"
  then show "remoteLine e result rline = result"
    by (cases "parseGitDate e (strings_TrimSpace e rdate)")
       (auto simp: remoteLine_def Let_def)
qed

lemma badTip_listing:
  "runProcess badTipEnv [] forEachRefHeads =
     Inr (''feature'' @ [tab] @ ''2222222bbbbbbb'' @ [tab] @ ''yesterday'' @ [tab] @
          ''refs/remotes/origin/feature'' @ [CHR 0x0A]) \<and>
   snd (scanLines badTipEnv
     (''feature'' @ [tab] @ ''2222222bbbbbbb'' @ [tab] @ ''yesterday'' @ [tab] @
      ''refs/remotes/origin/feature'' @ [CHR 0x0A])) = None"
  by code_simp

lemma badTip_fatal:
  "fst (getRecentBranches badTipEnv []) = Inl ''parse date for feature: unrecognized date: yesterday''"
  by code_simp

lemma badTip_others_parse:
  "fst (getBranchReflogLatestTime badTipEnv ''feature'' []) = Some 1717200000000000000 \<and>
   fst (getRemoteBranchTimes badTipEnv []) ''origin/feature'' = Some 1714521600000000000"
  by code_simp

lemma stale_reflog:
  "runProcess staleEnv [] (reflogArgs ''feature'') =
     Inr (staleReflogLine @ [CHR 0x0A]) \<and>
   staleReflogLine @ [CHR 0x0A] \<noteq> [] \<and>
   staleReflogLine =
     strings_TrimSpace staleEnv (staleReflogLine @ [CHR 0x0A]) \<and>
   ''last week'' =
     substr staleReflogLine
       (strings_Index staleReflogLine atBrace + 2)
       (strings_LastIndex staleReflogLine ''}'') \<and>
   time_Parse staleEnv RFC3339 ''last week'' = None \<and>
   isl (parseGitDate staleEnv ''last week'')"
  by code_simp

lemma stale_remote:
  "strings_SplitN2 (''origin/feature'' @ [tab] @ ''last week'') tab =
     [''origin/feature'', ''last week''] \<and>
   time_Parse staleEnv RFC3339 (strings_TrimSpace staleEnv ''last week'') = None \<and>
   isl (parseGitDate staleEnv (strings_TrimSpace staleEnv ''last week''))"
  by code_simp

lemma stale_ranking:
  "fst (getRecentBranches staleEnv []) =
     Inr [bMain, bFeature\<lparr>CommitTime := 1685577600000000000\<rparr>, bHotfix]"
  by code_simp

theorem tip_parse_failure_fatal_others_absent_witness:
  "isl (fst (getRecentBranches badTipEnv [])) \<and>
   (\<exists>line\<in>set (fst (scanLines badTipEnv
        (''feature'' @ [tab] @ ''2222222bbbbbbb'' @ [tab] @ ''yesterday'' @ [tab] @
         ''refs/remotes/origin/feature'' @ [CHR 0x0A]))).
      4 \<le> length (strings_Split line tab) \<and>
      isl (parseTip badTipEnv (strings_Split line tab ! 2))) \<and>
   fst (getBranchReflogLatestTime staleEnv ''feature'' []) = None \<and>
   remoteLine staleEnv Map.empty (''origin/feature'' @ [tab] @ ''last week'') = Map.empty"
proof -
  note t1 = tip_parse_failure_fatal_others_absent
    [where e = badTipEnv and h = "[]" and
       out = "''feature'' @ [tab] @ ''2222222bbbbbbb'' @ [tab] @ ''yesterday'' @ [tab] @
              ''refs/remotes/origin/feature'' @ [CHR 0x0A]"]
  note t2 = tip_parse_failure_fatal_others_absent
    [where e = staleEnv and hr = "[]" and branch = "''feature''" and
       rout = "staleReflogLine @ [CHR 0x0A]" and
       line = "staleReflogLine" and dateStr = "''last week''" and
       rline = "''origin/feature'' @ [tab] @ ''last week''" and
       rname = "''origin/feature''" and rdate = "''last week''" and result = Map.empty]
  have fatal: "isl (fst (getRecentBranches badTipEnv []))"
    by (simp add: badTip_fatal)
  from t1 badTip_listing fatal
  have "\<exists>line\<in>set (fst (scanLines badTipEnv
        (''feature'' @ [tab] @ ''2222222bbbbbbb'' @ [tab] @ ''yesterday'' @ [tab] @
         ''refs/remotes/origin/feature'' @ [CHR 0x0A]))).
      4 \<le> length (strings_Split line tab) \<and>
      isl (parseTip badTipEnv (strings_Split line tab ! 2))"
    by blast
  moreover from t2 stale_reflog
  have "fst (getBranchReflogLatestTime staleEnv ''feature'' []) = None"
    by blast
  moreover from t2 stale_remote
  have "remoteLine staleEnv Map.empty (''origin/feature'' @ [tab] @ ''last week'') = Map.empty"
    by blast
  ultimately show ?thesis using fatal by blast
qed

section \<open>The session\<close>

subsection \<open>The cursor\<close>

lemma cursorOK_applySortFilter: "cursorOK (applySortFilter e m)"
  by (auto simp: cursorOK_def applySortFilter_def Let_def)

lemma cursorOK_other_fields [simp]:
  "cursorOK (m\<lparr>status := s\<rparr>) = cursorOK m"
  "cursorOK (m\<lparr>confirming := c\<rparr>) = cursorOK m"
  "cursorOK (m\<lparr>action := a\<rparr>) = cursorOK m"
  by (simp_all add: cursorOK_def)

lemma cursorOK_up: "cursorOK m \<Longrightarrow> 0 < cursor m \<Longrightarrow> cursorOK (m\<lparr>cursor := cursor m - 1\<rparr>)"
  by (auto simp: cursorOK_def split: if_splits)

lemma cursorOK_down:
  "cursorOK m \<Longrightarrow> cursor m < int (length (filtered m)) - 1 \<Longrightarrow>
   cursorOK (m\<lparr>cursor := cursor m + 1\<rparr>)"
  by (auto simp: cursorOK_def split: if_splits)

lemma cursorOK_home: "cursorOK m \<Longrightarrow> cursorOK (m\<lparr>cursor := 0\<rparr>)"
  by (auto simp: cursorOK_def split: if_splits)

lemma cursorOK_end:
  "0 < length (filtered m) \<Longrightarrow> cursorOK (m\<lparr>cursor := int (length (filtered m)) - 1\<rparr>)"
  by (auto simp: cursorOK_def)

lemma cursorOK_reloadAfter: "cursorOK m \<Longrightarrow> cursorOK (fst (reloadAfter e m msg h))"
proof -
  assume ok: "cursorOK m"
  obtain r h' where g: "getRecentBranches e h = (r, h')"
    by (metis surj_pair)
  show ?thesis
  proof (cases r)
    case (Inl err)
    with g ok show ?thesis by (simp add: reloadAfter_def)
  next
    case (Inr brs)
    with g show ?thesis by (simp add: reloadAfter_def cursorOK_applySortFilter)
  qed
qed

lemma cursorOK_confirmYes: "cursorOK m \<Longrightarrow> cursorOK (fst (confirmYes e m h))"
proof -
  assume ok: "cursorOK m"
  let ?b = "filtered m ! nat (cursor m)"
  have del: "cursorOK (fst (case gitDeleteBranch e (Name ?b) h of
        (Some err, h') \<Rightarrow> (m\<lparr>status := ''delete failed: '' @ err\<rparr>, h')
      | (None, h') \<Rightarrow> reloadAfter e m (''deleted '' @ Name ?b) h'))"
    using ok cursorOK_reloadAfter [OF ok]
    by (cases "gitDeleteBranch e (Name ?b) h"; cases "fst (gitDeleteBranch e (Name ?b) h)") auto
  have mer: "cursorOK (fst (case gitMergeIntoCurrent e (Name ?b) h of
        (Some err, h') \<Rightarrow> (m\<lparr>status := ''merge failed: '' @ err\<rparr>, h')
      | (None, h') \<Rightarrow> reloadAfter e m (''merged '' @ Name ?b @ '' into current'') h'))"
    using ok cursorOK_reloadAfter [OF ok]
    by (cases "gitMergeIntoCurrent e (Name ?b) h"; cases "fst (gitMergeIntoCurrent e (Name ?b) h)") auto
  show ?thesis
    unfolding confirmYes_def Let_def
    using ok del mer
    by (simp add: case_prod_beta)
qed

lemma cursorOK_keySwitch: "cursorOK m \<Longrightarrow> cursorOK (fst (fst (keySwitch e m s w)))"
  unfolding keySwitch_def Let_def
  by (simp add: cursorOK_applySortFilter cursorOK_up cursorOK_down cursorOK_home cursorOK_end
      case_prod_beta split: option.splits sum.splits)

lemma cursorOK_Update: "cursorOK m \<Longrightarrow> cursorOK (fst (fst (Update e m msg w)))"
proof (cases msg)
  case (KeyMsg s)
  assume ok: "cursorOK m"
  have c: "cursorOK (m\<lparr>status := ''cancelled'', confirming := False, action := []\<rparr>)"
    using ok by (simp add: cursorOK_def)
  show ?thesis
    using KeyMsg ok c cursorOK_confirmYes [OF ok, of e "procs w"] cursorOK_keySwitch [OF ok, of e s w]
    by (auto simp: Update_def split: prod.splits)
next
  case (TickMsg t)
  assume "cursorOK m"
  with TickMsg show ?thesis by (simp add: Update_def)
next
  case (StatusMsg s)
  assume "cursorOK m"
  with StatusMsg show ?thesis by (simp add: Update_def cursorOK_def)
next
  case OtherMsg
  assume "cursorOK m"
  with OtherMsg show ?thesis by (simp add: Update_def)
qed

lemma cursorOK_deliver: "cursorOK (fst mw) \<Longrightarrow> cursorOK (fst (deliver e msg mw))"
  using cursorOK_Update [of "fst mw" e msg "snd mw"]
  by (auto simp: deliver_def split: prod.splits)

lemma cursorOK_run: "cursorOK (fst mw) \<Longrightarrow> cursorOK (fst (run e msgs mw))"
proof (induction msgs arbitrary: mw)
  case Nil
  then show ?case by (simp add: run_def)
next
  case (Cons msg msgs)
  from Cons.IH [OF cursorOK_deliver [OF Cons.prems, of e msg]]
  show ?case by (simp add: run_def)
qed

lemma cursorOK_initialModel: "cursorOK (initialModel e bs)"
  by (simp add: initialModel_def cursorOK_applySortFilter)

text \<open>Claim C5. In every session, that is after any sequence of messages delivered to the
  model that \<open>initialModel\<close> builds from any ranking, in any environment, the cursor is \<open>0\<close>
  when the view is empty and an index of the view otherwise.\<close>

theorem cursor_within_view:
  "cursorOK (fst (run e msgs (initialModel e bs, w)))"
  by (rule cursorOK_run) (simp add: cursorOK_initialModel)

text \<open>A session always has a cursor inside its view; here after two keys.\<close>

theorem cursor_within_view_witness:
  "cursorOK (fst (run demoEnv [KeyMsg ''j'', KeyMsg ''G''] (initialModel demoEnv [bFeature, bMain, bHotfix], world0)))"
  using cursor_within_view [of demoEnv "[KeyMsg ''j'', KeyMsg ''G'']" "[bFeature, bMain, bHotfix]" world0]
  by simp

subsection \<open>Refusing to delete the current branch\<close>

text \<open>The refusal looks at the record under the cursor at the moment of the key \<open>y\<close>: when
  a delete is being confirmed and that record is the current branch, the key \<open>y\<close> (or \<open>Y\<close>)
  runs no external command at all, the status becomes the refusal and the session is
  browsing again.\<close>

lemma refusal_when_current_under_cursor:
  assumes "confirming m" and "action m = ''delete''"
    and "0 \<le> cursor m" and "cursor m < int (length (filtered m))"
    and "IsCurrent (filtered m ! nat (cursor m))"
    and "k = ''y'' \<or> k = ''Y''"
  shows "Update e m (KeyMsg k) w =
           ((m\<lparr>status := ''cannot delete current branch'', confirming := False, action := []\<rparr>,
             CmdNil), w)"
  using assms by (auto simp: Update_def confirmYes_def Let_def)

lemma deleteMainRequested_state:
  "confirming deleteMainRequested \<and> action deleteMainRequested = ''delete'' \<and>
   cursor deleteMainRequested = 1 \<and>
   filtered deleteMainRequested = [bFeature, bMain, bHotfix] \<and>
   status deleteMainRequested = ''delete main? y/N''"
  by code_simp

lemma refusal_at_once:
  "Update demoEnv deleteMainRequested (KeyMsg ''y'') world0 =
     ((deleteMainRequested\<lparr>status := ''cannot delete current branch'', confirming := False,
         action := []\<rparr>, CmdNil), world0)"
proof -
  have h1: "confirming deleteMainRequested" and h2: "action deleteMainRequested = ''delete''"
    and h3: "0 \<le> cursor deleteMainRequested"
    and h4: "cursor deleteMainRequested < int (length (filtered deleteMainRequested))"
    using deleteMainRequested_state by simp_all
  have h5: "IsCurrent (filtered deleteMainRequested ! nat (cursor deleteMainRequested))"
    using deleteMainRequested_state by (simp add: bMain_def)
  from refusal_when_current_under_cursor [OF h1 h2 h3 h4 h5, of "''y''" demoEnv world0]
  show ?thesis by simp
qed

text \<open>Claim C6, as the code behaves. The delete of \<open>main\<close>, the current branch, is
  requested: the session is confirming a delete, the record under the cursor is current
  and the status asks about \<open>main\<close>. The key \<open>k\<close>, which is neither a confirmation nor a
  cancellation, is handled as in browsing mode and moves the cursor to \<open>feature\<close>. The key
  \<open>Y\<close> then sets no refusal: it runs the delete command, on \<open>feature\<close>, and reports it.\<close>

theorem pending_delete_of_current_not_refused:
  "status (fst (run demoEnv [KeyMsg ''j'', KeyMsg ''x''] (model0, world0))) =
     ''delete main? y/N'' \<and>
   confirming (fst (run demoEnv [KeyMsg ''j'', KeyMsg ''x''] (model0, world0))) \<and>
   action (fst (run demoEnv [KeyMsg ''j'', KeyMsg ''x''] (model0, world0))) = ''delete'' \<and>
   filtered (fst (run demoEnv [KeyMsg ''j'', KeyMsg ''x''] (model0, world0))) !
     nat (cursor (fst (run demoEnv [KeyMsg ''j'', KeyMsg ''x''] (model0, world0)))) = bMain \<and>
   IsCurrent bMain \<and>
   procs (snd (run demoEnv [KeyMsg ''j'', KeyMsg ''x''] (model0, world0))) = [] \<and>
   confirming (fst (run demoEnv [KeyMsg ''j'', KeyMsg ''x'', KeyMsg ''k''] (model0, world0))) \<and>
   action (fst (run demoEnv [KeyMsg ''j'', KeyMsg ''x'', KeyMsg ''k''] (model0, world0))) =
     ''delete'' \<and>
   cursor (fst (run demoEnv [KeyMsg ''j'', KeyMsg ''x'', KeyMsg ''k''] (model0, world0))) = 0 \<and>
   procs (snd (run demoEnv [KeyMsg ''j'', KeyMsg ''x'', KeyMsg ''k'', KeyMsg ''Y'']
                 (model0, world0))) =
     [''git'', ''branch'', ''-d'', ''feature''] # demoLog \<and>
   status (fst (run demoEnv [KeyMsg ''j'', KeyMsg ''x'', KeyMsg ''k'', KeyMsg ''Y'']
                  (model0, world0))) = ''deleted feature''"
  by code_simp

subsection \<open>Cycling the sort order\<close>

lemma applySortFilter_sort [simp]:
  "sortBy (applySortFilter e m) = sortBy m" "sortDesc (applySortFilter e m) = sortDesc m"
  by (simp_all add: applySortFilter_def Let_def)

lemma sort_key_step:
  "sortBy (fst (fst (Update e m (KeyMsg ''s'') w))) = sortBy (cycleSort m) \<and>
   sortDesc (fst (fst (Update e m (KeyMsg ''s'') w))) = sortDesc (cycleSort m)"
  by (simp add: Update_def keySwitch_def)

text \<open>Claim C2, as the code behaves. The key \<open>s\<close> takes every state that sorts by time to
  name ascending, so time ascending is followed by name ascending and name descending is
  never reached: from the initial order, time descending, four presses end in time
  ascending.\<close>

theorem sort_cycle_never_reaches_name_desc:
  "sortBy (initialModel e bs) = ''time'' \<and> sortDesc (initialModel e bs) = True \<and>
   sortBy (fst (run e (replicate 4 (KeyMsg ''s'')) (initialModel e bs, w))) = ''time'' \<and>
   sortDesc (fst (run e (replicate 4 (KeyMsg ''s'')) (initialModel e bs, w))) = False \<and>
   sortBy (cycleSort (m\<lparr>sortBy := ''time'', sortDesc := False\<rparr>)) = ''name'' \<and>
   sortDesc (cycleSort (m\<lparr>sortBy := ''time'', sortDesc := False\<rparr>)) = False"
proof -
  have step: "\<And>x v. sortBy (fst (deliver e (KeyMsg ''s'') (x, v))) = sortBy (cycleSort x) \<and>
       sortDesc (fst (deliver e (KeyMsg ''s'') (x, v))) = sortDesc (cycleSort x)"
    using sort_key_step by (simp add: deliver_def split: prod.splits) (metis fst_conv)
  have init: "sortBy (initialModel e bs) = ''time''" "sortDesc (initialModel e bs) = True"
    by (simp_all add: initialModel_def)
  obtain m1 w1 where s1: "deliver e (KeyMsg ''s'') (initialModel e bs, w) = (m1, w1)"
    by (metis surj_pair)
  obtain m2 w2 where s2: "deliver e (KeyMsg ''s'') (m1, w1) = (m2, w2)"
    by (metis surj_pair)
  obtain m3 w3 where s3: "deliver e (KeyMsg ''s'') (m2, w2) = (m3, w3)"
    by (metis surj_pair)
  obtain m4 w4 where s4: "deliver e (KeyMsg ''s'') (m3, w3) = (m4, w4)"
    by (metis surj_pair)
  from step [of "initialModel e bs" w] s1 init
  have k1: "sortBy m1 = ''name''" "sortDesc m1 = False" by (simp_all add: cycleSort_def)
  from step [of m1 w1] s2 k1
  have k2: "sortBy m2 = ''time''" "sortDesc m2 = False" by (simp_all add: cycleSort_def)
  from step [of m2 w2] s3 k2
  have k3: "sortBy m3 = ''name''" "sortDesc m3 = False" by (simp_all add: cycleSort_def)
  from step [of m3 w3] s4 k3
  have k4: "sortBy m4 = ''time''" "sortDesc m4 = False" by (simp_all add: cycleSort_def)
  have "run e (replicate 4 (KeyMsg ''s'')) (initialModel e bs, w) = (m4, w4)"
    using s1 s2 s3 s4 by (simp add: run_def numeral_eq_Suc)
  with k4 init show ?thesis by (simp add: cycleSort_def)
qed

subsection \<open>Committing a search\<close>

text \<open>Claim C3, as the code behaves. The command that reads the query stores it through a
  pointer into the copy of the model that was local to the call of \<open>Update\<close>; the model that
  the framework holds is another copy. When the message \<open>filter applied\<close> has been
  delivered, the session differs from the one before the search in its status only: its
  search text and its view are what they were, and the query sits in the store. A status
  message, whatever its text, changes the status and nothing else, so the view is not
  recomputed when it arrives.\<close>

theorem search_commit_leaves_search_and_view:
  "fst (searchFlow e s (m, w)) = m\<lparr>status := ''filter applied''\<rparr> \<and>
   search (heap (snd (searchFlow e s (m, w))) ! length (heap w)) = s \<and>
   fst (fst (Update e m (StatusMsg t) w)) = m\<lparr>status := t\<rparr>"
  by (simp add: searchFlow_def Update_def keySwitch_def readLine_def deliver_def Let_def
      nth_append)

lemma search_commit_demo:
  "search (fst (searchFlow demoEnv ''feat'' (model0, world0))) = [] \<and>
   filtered (fst (searchFlow demoEnv ''feat'' (model0, world0))) = [bFeature, bMain, bHotfix] \<and>
   filtered (applySortFilter demoEnv (model0\<lparr>search := ''feat''\<rparr>)) = [bFeature]"
  by code_simp

subsection \<open>Keys during a confirmation\<close>

lemma confirming_other_key:
  "k \<notin> set [''y'', ''Y'', ''n'', ''N'', ''esc''] \<Longrightarrow>
   Update e m (KeyMsg k) w = keySwitch e m k w"
  by (auto simp: Update_def)

text \<open>Claim C4, as the code behaves. A delete is requested with the cursor on \<open>feature\<close>
  and the status asks about \<open>feature\<close>. The key \<open>G\<close>, which is neither a confirmation nor a
  cancellation, is handled as in browsing mode: the cursor moves to \<open>hotfix\<close> while the
  session stays in confirming mode. The key \<open>y\<close> then deletes \<open>hotfix\<close>, the branch under the
  cursor at that moment.\<close>

theorem confirm_acts_on_branch_under_cursor:
  "status (fst (run demoEnv [KeyMsg ''x''] (model0, world0))) = ''delete feature? y/N'' \<and>
   confirming (fst (run demoEnv [KeyMsg ''x''] (model0, world0))) \<and>
   cursor (fst (run demoEnv [KeyMsg ''x''] (model0, world0))) = 0 \<and>
   confirming (fst (run demoEnv [KeyMsg ''x'', KeyMsg ''G''] (model0, world0))) \<and>
   cursor (fst (run demoEnv [KeyMsg ''x'', KeyMsg ''G''] (model0, world0))) = 2 \<and>
   procs (snd (run demoEnv [KeyMsg ''x'', KeyMsg ''G'', KeyMsg ''y''] (model0, world0))) =
     [''git'', ''branch'', ''-d'', ''hotfix''] # demoLog \<and>
   status (fst (run demoEnv [KeyMsg ''x'', KeyMsg ''G'', KeyMsg ''y''] (model0, world0))) =
     ''deleted hotfix''"
  by code_simp

subsection \<open>Failures of external commands\<close>

lemma applySortFilter_status:
  "applySortFilter e (m\<lparr>status := s\<rparr>) = (applySortFilter e m)\<lparr>status := s\<rparr>"
  by (simp add: applySortFilter_def Let_def viewLess_def [abs_def])

lemma applySortFilter_status_branches:
  "applySortFilter e (m\<lparr>status := s, branches := brs\<rparr>) =
   (applySortFilter e (m\<lparr>branches := brs\<rparr>))\<lparr>status := s\<rparr>"
  by (simp add: applySortFilter_def Let_def viewLess_def [abs_def])

lemma reloadAfter_cases:
  "(\<exists>err. fst (getRecentBranches e h) = Inl err \<and> fst (reloadAfter e m msg h) = m\<lparr>status := msg\<rparr>) \<or>
   (\<exists>brs. fst (getRecentBranches e h) = Inr brs \<and>
      fst (reloadAfter e m msg h) = (applySortFilter e (m\<lparr>branches := brs\<rparr>))\<lparr>status := msg\<rparr>)"
proof -
  obtain r h' where g: "getRecentBranches e h = (r, h')"
    by (metis surj_pair)
  show ?thesis
  proof (cases r)
    case (Inl err)
    with g show ?thesis by (simp add: reloadAfter_def)
  next
    case (Inr brs)
    with g show ?thesis
      by (simp add: reloadAfter_def applySortFilter_status_branches)
  qed
qed

text \<open>The two outcomes of a transition for the snapshot: \<open>m'\<close> is \<open>m\<close> up to status and mode,
  or \<open>m'\<close> is \<open>m\<close> with a new ranking and the view recomputed from it, up to status and
  mode.\<close>

lemma confirmYes_atomic:
  "\<exists>st. fst (confirmYes e m h) = m\<lparr>status := st, confirming := False, action := []\<rparr> \<or>
     (\<exists>h' brs. fst (getRecentBranches e h') = Inr brs \<and>
        fst (confirmYes e m h) =
          (applySortFilter e (m\<lparr>branches := brs\<rparr>))\<lparr>status := st, confirming := False,
             action := []\<rparr>)"
proof -
  let ?b = "filtered m ! nat (cursor m)"
  let ?P = "\<lambda>x. \<exists>st. x = m\<lparr>status := st\<rparr> \<or>
     (\<exists>h' brs. fst (getRecentBranches e h') = Inr brs \<and>
        x = (applySortFilter e (m\<lparr>branches := brs\<rparr>))\<lparr>status := st\<rparr>)"
  have same: "?P m"
    by (rule exI [of _ "status m"]) simp
  have st: "\<And>s. ?P (m\<lparr>status := s\<rparr>)"
    by blast
  have rl: "\<And>msg h1. ?P (fst (reloadAfter e m msg h1))"
    using reloadAfter_cases by metis
  have del: "?P (fst (case gitDeleteBranch e (Name ?b) h of
        (Some err, h') \<Rightarrow> (m\<lparr>status := ''delete failed: '' @ err\<rparr>, h')
      | (None, h') \<Rightarrow> reloadAfter e m (''deleted '' @ Name ?b) h'))"
  proof (cases "gitDeleteBranch e (Name ?b) h")
    case (Pair r h1)
    then show ?thesis using st rl by (cases r) simp_all
  qed
  have mer: "?P (fst (case gitMergeIntoCurrent e (Name ?b) h of
        (Some err, h') \<Rightarrow> (m\<lparr>status := ''merge failed: '' @ err\<rparr>, h')
      | (None, h') \<Rightarrow> reloadAfter e m (''merged '' @ Name ?b @ '' into current'') h'))"
  proof (cases "gitMergeIntoCurrent e (Name ?b) h")
    case (Pair r h1)
    then show ?thesis using st rl by (cases r) simp_all
  qed
  let ?X = "(if 0 \<le> cursor m \<and> cursor m < int (length (filtered m))
         then
           (let b = filtered m ! nat (cursor m)
            in if action m = ''delete''
               then
                 (if IsCurrent b then (m\<lparr>status := ''cannot delete current branch''\<rparr>, h)
                  else
                    (case gitDeleteBranch e (Name b) h of
                       (Some err, h') \<Rightarrow> (m\<lparr>status := ''delete failed: '' @ err\<rparr>, h')
                     | (None, h') \<Rightarrow> reloadAfter e m (''deleted '' @ Name b) h'))
               else if action m = ''merge''
               then
                 (if IsCurrent b then (m\<lparr>status := ''already on this branch''\<rparr>, h)
                  else
                    (case gitMergeIntoCurrent e (Name b) h of
                       (Some err, h') \<Rightarrow> (m\<lparr>status := ''merge failed: '' @ err\<rparr>, h')
                     | (None, h') \<Rightarrow>
                         reloadAfter e m (''merged '' @ Name b @ '' into current'') h'))
               else (m, h))
         else (m, h))"
  have X: "?P (fst ?X)"
    using same st del mer by (simp add: Let_def)
  have eq: "fst (confirmYes e m h) = (fst ?X)\<lparr>confirming := False, action := []\<rparr>"
    unfolding confirmYes_def by (simp add: case_prod_beta)
  from X obtain st where
    "fst ?X = m\<lparr>status := st\<rparr> \<or>
     (\<exists>h' brs. fst (getRecentBranches e h') = Inr brs \<and>
        fst ?X = (applySortFilter e (m\<lparr>branches := brs\<rparr>))\<lparr>status := st\<rparr>)"
    by blast
  then show ?thesis
  proof
    assume a: "fst ?X = m\<lparr>status := st\<rparr>"
    show ?thesis
      unfolding eq a by (intro exI [of _ st] disjI1) simp
  next
    assume "\<exists>h' brs. fst (getRecentBranches e h') = Inr brs \<and>
        fst ?X = (applySortFilter e (m\<lparr>branches := brs\<rparr>))\<lparr>status := st\<rparr>"
    then obtain h' brs where g: "fst (getRecentBranches e h') = Inr brs"
      and b: "fst ?X = (applySortFilter e (m\<lparr>branches := brs\<rparr>))\<lparr>status := st\<rparr>"
      by blast
    show ?thesis
      unfolding eq b
      by (intro exI [of _ st] disjI2 exI [of _ h'] exI [of _ brs]) (simp add: g)
  qed
qed

lemma Update_enter:
  "fst (fst (Update e m (KeyMsg ''enter'') w)) =
     (if 0 \<le> cursor m \<and> cursor m < int (length (filtered m))
      then (case fst (gitCheckoutBranch e (Name (filtered m ! nat (cursor m))) (procs w)) of
              Some err \<Rightarrow> m\<lparr>status := ''checkout failed: '' @ err\<rparr>
            | None \<Rightarrow> m\<lparr>status := ''checked out '' @ Name (filtered m ! nat (cursor m))\<rparr>)
      else m)"
  by (simp add: Update_def keySwitch_def Let_def case_prod_beta split: option.splits)

lemma Update_r:
  "fst (fst (Update e m (KeyMsg ''r'') w)) =
     (case fst (getRecentBranches e (procs w)) of
        Inl err \<Rightarrow> m\<lparr>status := ''refresh failed: '' @ err\<rparr>
      | Inr brs \<Rightarrow> (applySortFilter e (m\<lparr>branches := brs\<rparr>))\<lparr>status := ''refreshed''\<rparr>)"
  by (simp add: Update_def keySwitch_def Let_def case_prod_beta split: sum.splits)

lemma Update_f:
  "fst (fst (Update e m (KeyMsg ''f'') w)) =
     (case fst (getRecentBranches e (snd (gitFetchAll e (procs w)))) of
        Inl err \<Rightarrow> m\<lparr>status := ''fetch failed: '' @ err\<rparr>
      | Inr brs \<Rightarrow> (applySortFilter e (m\<lparr>branches := brs\<rparr>))\<lparr>status := ''fetched''\<rparr>)"
  by (simp add: Update_def keySwitch_def Let_def case_prod_beta split: sum.splits)

lemma Update_yes:
  "k = ''y'' \<or> k = ''Y'' \<Longrightarrow>
   fst (fst (Update e m (KeyMsg k) w)) =
     (if confirming m then fst (confirmYes e m (procs w)) else m)"
proof -
  have y: "fst (fst (Update e m (KeyMsg ''y'') w)) =
     (if confirming m then fst (confirmYes e m (procs w)) else m)"
    by (simp add: Update_def keySwitch_def case_prod_beta)
  have Y: "fst (fst (Update e m (KeyMsg ''Y'') w)) =
     (if confirming m then fst (confirmYes e m (procs w)) else m)"
    by (simp add: Update_def keySwitch_def case_prod_beta)
  assume "k = ''y'' \<or> k = ''Y''"
  then show ?thesis using y Y by blast
qed

lemma confirmYes_delete_failed:
  "action m = ''delete'' \<Longrightarrow> 0 \<le> cursor m \<Longrightarrow> cursor m < int (length (filtered m)) \<Longrightarrow>
   \<not> IsCurrent (filtered m ! nat (cursor m)) \<Longrightarrow>
   fst (gitDeleteBranch e (Name (filtered m ! nat (cursor m))) h) = Some err \<Longrightarrow>
   fst (confirmYes e m h) = m\<lparr>status := ''delete failed: '' @ err, confirming := False, action := []\<rparr>"
  by (simp add: confirmYes_def Let_def case_prod_beta)

lemma confirmYes_merge_failed:
  "action m = ''merge'' \<Longrightarrow> 0 \<le> cursor m \<Longrightarrow> cursor m < int (length (filtered m)) \<Longrightarrow>
   \<not> IsCurrent (filtered m ! nat (cursor m)) \<Longrightarrow>
   fst (gitMergeIntoCurrent e (Name (filtered m ! nat (cursor m))) h) = Some err \<Longrightarrow>
   fst (confirmYes e m h) = m\<lparr>status := ''merge failed: '' @ err, confirming := False, action := []\<rparr>"
  by (simp add: confirmYes_def Let_def case_prod_beta)

lemma same_up_to_status_and_mode:
  "m = m\<lparr>status := status m, confirming := confirming m, action := action m\<rparr>"
  "m\<lparr>status := s\<rparr> = m\<lparr>status := s, confirming := confirming m, action := action m\<rparr>"
  by simp_all

lemma replaced_up_to_status_and_mode:
  "(applySortFilter e (m\<lparr>branches := brs\<rparr>))\<lparr>status := s\<rparr> =
   (applySortFilter e (m\<lparr>branches := brs\<rparr>))\<lparr>status := s, confirming := confirming m,
      action := action m\<rparr>"
  by (simp add: applySortFilter_def Let_def)

lemma gateway_key_atomic:
  assumes "k \<in> set [''enter'', ''y'', ''Y'', ''r'', ''f'']"
  shows "\<exists>st cf ac.
           fst (fst (Update e m (KeyMsg k) w)) = m\<lparr>status := st, confirming := cf, action := ac\<rparr> \<or>
           (\<exists>h brs. fst (getRecentBranches e h) = Inr brs \<and>
              fst (fst (Update e m (KeyMsg k) w)) =
                (applySortFilter e (m\<lparr>branches := brs\<rparr>))\<lparr>status := st, confirming := cf,
                   action := ac\<rparr>)"
proof -
  from assms consider "k = ''enter''" | "k = ''y'' \<or> k = ''Y''" | "k = ''r''" | "k = ''f''"
    by auto
  then show ?thesis
  proof cases
    case 1
    have "\<exists>st. fst (fst (Update e m (KeyMsg ''enter'') w)) = m\<lparr>status := st\<rparr>"
      unfolding Update_enter
      by (cases "fst (gitCheckoutBranch e (Name (filtered m ! nat (cursor m))) (procs w))")
         (auto intro: exI [of _ "status m"])
    then obtain st where "fst (fst (Update e m (KeyMsg ''enter'') w)) = m\<lparr>status := st\<rparr>"
      by blast
    with 1 show ?thesis
      using same_up_to_status_and_mode(2) [where m = m and s = st] by metis
  next
    case 2
    show ?thesis
    proof (cases "confirming m")
      case True
      with 2 confirmYes_atomic [of e m "procs w"] show ?thesis
        by (simp only: Update_yes if_True) blast
    next
      case False
      with 2 have "fst (fst (Update e m (KeyMsg k) w)) = m"
        by (simp only: Update_yes if_False)
      then show ?thesis
        using same_up_to_status_and_mode(1) [where m = m] by metis
    qed
  next
    case 3
    show ?thesis
    proof (cases "fst (getRecentBranches e (procs w))")
      case (Inl err)
      with 3 have "fst (fst (Update e m (KeyMsg k) w)) = m\<lparr>status := ''refresh failed: '' @ err\<rparr>"
        by (simp add: Update_r)
      then show ?thesis
        using same_up_to_status_and_mode(2) [where m = m and s = "''refresh failed: '' @ err"] by metis
    next
      case (Inr brs)
      with 3 have "fst (fst (Update e m (KeyMsg k) w)) =
          (applySortFilter e (m\<lparr>branches := brs\<rparr>))\<lparr>status := ''refreshed''\<rparr>"
        by (simp add: Update_r)
      with Inr show ?thesis
        using replaced_up_to_status_and_mode [where e = e and m = m and brs = brs and s = "''refreshed''"] by metis
    qed
  next
    case 4
    show ?thesis
    proof (cases "fst (getRecentBranches e (snd (gitFetchAll e (procs w))))")
      case (Inl err)
      with 4 have "fst (fst (Update e m (KeyMsg k) w)) = m\<lparr>status := ''fetch failed: '' @ err\<rparr>"
        by (simp add: Update_f)
      then show ?thesis
        using same_up_to_status_and_mode(2) [where m = m and s = "''fetch failed: '' @ err"] by metis
    next
      case (Inr brs)
      with 4 have "fst (fst (Update e m (KeyMsg k) w)) =
          (applySortFilter e (m\<lparr>branches := brs\<rparr>))\<lparr>status := ''fetched''\<rparr>"
        by (simp add: Update_f)
      with Inr show ?thesis
        using replaced_up_to_status_and_mode [where e = e and m = m and brs = brs and s = "''fetched''"] by metis
    qed
  qed
qed

text \<open>Claim C7 as the code has it fails for the fetch: in the concrete repository fetching
  fails, and the session that started before \<open>feature\<close> existed nevertheless gets a new
  snapshot and view, and the status \<open>fetched\<close>.\<close>

theorem failed_fetch_replaces_snapshot:
  "fst (gitFetchAll demoEnv (procs world0)) = Some ''exit status 1'' \<and>
   branches olderModel = [bMain, bHotfix] \<and>
   filtered olderModel = [bMain, bHotfix] \<and>
   branches (fst (fst (Update demoEnv olderModel (KeyMsg ''f'') world0))) =
     [bFeature, bMain, bHotfix] \<and>
   filtered (fst (fst (Update demoEnv olderModel (KeyMsg ''f'') world0))) =
     [bFeature, bMain, bHotfix] \<and>
   status (fst (fst (Update demoEnv olderModel (KeyMsg ''f'') world0))) = ''fetched''"
  by code_simp

text \<open>Claim C7, amended. A key that runs an external command (\<open>enter\<close>, \<open>y\<close>, \<open>Y\<close>, \<open>r\<close>, \<open>f\<close>)
  leaves the model as it was up to status and mode, or replaces the snapshot by a ranking
  that \<open>getRecentBranches\<close> returned and the view and cursor by what \<open>applySortFilter\<close>
  computes from it, again up to status and mode. When the checkout, the delete or the
  merge fails, and when the ranking of a refresh or of a fetch fails, the model keeps
  snapshot, view and cursor and the status is the failure notice (after a delete or merge
  the session is browsing again). The result of the fetch command itself is ignored: when
  the ranking after it succeeds the snapshot is replaced and the status is \<open>fetched\<close>.\<close>

theorem gateway_transitions_atomic:
  assumes "Update e m (KeyMsg k) w = ((m', c), w')"
  shows
    "(k \<in> set [''enter'', ''y'', ''Y'', ''r'', ''f''] \<longrightarrow>
        (\<exists>st cf ac.
           m' = m\<lparr>status := st, confirming := cf, action := ac\<rparr> \<or>
           (\<exists>h brs. fst (getRecentBranches e h) = Inr brs \<and>
              m' = (applySortFilter e (m\<lparr>branches := brs\<rparr>))\<lparr>status := st, confirming := cf,
                      action := ac\<rparr>))) \<and>
     (k = ''enter'' \<and> 0 \<le> cursor m \<and> cursor m < int (length (filtered m)) \<and>
      fst (gitCheckoutBranch e (Name (filtered m ! nat (cursor m))) (procs w)) = Some cerr \<longrightarrow>
        m' = m\<lparr>status := ''checkout failed: '' @ cerr\<rparr>) \<and>
     (confirming m \<and> (k = ''y'' \<or> k = ''Y'') \<and> action m = ''delete'' \<and>
      0 \<le> cursor m \<and> cursor m < int (length (filtered m)) \<and>
      \<not> IsCurrent (filtered m ! nat (cursor m)) \<and>
      fst (gitDeleteBranch e (Name (filtered m ! nat (cursor m))) (procs w)) = Some derr \<longrightarrow>
        m' = m\<lparr>status := ''delete failed: '' @ derr, confirming := False, action := []\<rparr>) \<and>
     (confirming m \<and> (k = ''y'' \<or> k = ''Y'') \<and> action m = ''merge'' \<and>
      0 \<le> cursor m \<and> cursor m < int (length (filtered m)) \<and>
      \<not> IsCurrent (filtered m ! nat (cursor m)) \<and>
      fst (gitMergeIntoCurrent e (Name (filtered m ! nat (cursor m))) (procs w)) = Some merr \<longrightarrow>
        m' = m\<lparr>status := ''merge failed: '' @ merr, confirming := False, action := []\<rparr>) \<and>
     (k = ''r'' \<and> fst (getRecentBranches e (procs w)) = Inl rerr \<longrightarrow>
        m' = m\<lparr>status := ''refresh failed: '' @ rerr\<rparr>) \<and>
     (k = ''f'' \<and> fst (getRecentBranches e (snd (gitFetchAll e (procs w)))) = Inl ferr \<longrightarrow>
        m' = m\<lparr>status := ''fetch failed: '' @ ferr\<rparr>) \<and>
     (k = ''f'' \<and> fst (getRecentBranches e (snd (gitFetchAll e (procs w)))) = Inr brs \<longrightarrow>
        m' = (applySortFilter e (m\<lparr>branches := brs\<rparr>))\<lparr>status := ''fetched''\<rparr>)"
proof -
  from assms have m': "m' = fst (fst (Update e m (KeyMsg k) w))"
    by simp
  show ?thesis
  proof (intro conjI impI)
    assume "k \<in> set [''enter'', ''y'', ''Y'', ''r'', ''f'']"
    from gateway_key_atomic [OF this, of e m w]
    show "\<exists>st cf ac.
           m' = m\<lparr>status := st, confirming := cf, action := ac\<rparr> \<or>
           (\<exists>h brs. fst (getRecentBranches e h) = Inr brs \<and>
              m' = (applySortFilter e (m\<lparr>branches := brs\<rparr>))\<lparr>status := st, confirming := cf,
                      action := ac\<rparr>)"
      unfolding m' .
  next
    assume "k = ''enter'' \<and> 0 \<le> cursor m \<and> cursor m < int (length (filtered m)) \<and>
      fst (gitCheckoutBranch e (Name (filtered m ! nat (cursor m))) (procs w)) = Some cerr"
    then show "m' = m\<lparr>status := ''checkout failed: '' @ cerr\<rparr>"
      unfolding m' by (simp add: Update_enter)
  next
    assume a: "confirming m \<and> (k = ''y'' \<or> k = ''Y'') \<and> action m = ''delete'' \<and>
      0 \<le> cursor m \<and> cursor m < int (length (filtered m)) \<and>
      \<not> IsCurrent (filtered m ! nat (cursor m)) \<and>
      fst (gitDeleteBranch e (Name (filtered m ! nat (cursor m))) (procs w)) = Some derr"
    then have "fst (fst (Update e m (KeyMsg k) w)) = fst (confirmYes e m (procs w))"
      using Update_yes [of k e m w] by simp
    with a show "m' = m\<lparr>status := ''delete failed: '' @ derr, confirming := False, action := []\<rparr>"
      unfolding m' by (simp add: confirmYes_delete_failed)
  next
    assume a: "confirming m \<and> (k = ''y'' \<or> k = ''Y'') \<and> action m = ''merge'' \<and>
      0 \<le> cursor m \<and> cursor m < int (length (filtered m)) \<and>
      \<not> IsCurrent (filtered m ! nat (cursor m)) \<and>
      fst (gitMergeIntoCurrent e (Name (filtered m ! nat (cursor m))) (procs w)) = Some merr"
    then have "fst (fst (Update e m (KeyMsg k) w)) = fst (confirmYes e m (procs w))"
      using Update_yes [of k e m w] by simp
    with a show "m' = m\<lparr>status := ''merge failed: '' @ merr, confirming := False, action := []\<rparr>"
      unfolding m' by (simp add: confirmYes_merge_failed)
  next
    assume "k = ''r'' \<and> fst (getRecentBranches e (procs w)) = Inl rerr"
    then show "m' = m\<lparr>status := ''refresh failed: '' @ rerr\<rparr>"
      unfolding m' by (simp add: Update_r)
  next
    assume "k = ''f'' \<and> fst (getRecentBranches e (snd (gitFetchAll e (procs w)))) = Inl ferr"
    then show "m' = m\<lparr>status := ''fetch failed: '' @ ferr\<rparr>"
      unfolding m' by (simp add: Update_f)
  next
    assume "k = ''f'' \<and> fst (getRecentBranches e (snd (gitFetchAll e (procs w)))) = Inr brs"
    then show "m' = (applySortFilter e (m\<lparr>branches := brs\<rparr>))\<lparr>status := ''fetched''\<rparr>"
      unfolding m' by (simp add: Update_f)
  qed
qed

lemma model0_state:
  "\<not> confirming model0 \<and> cursor model0 = 0 \<and> filtered model0 = [bFeature, bMain, bHotfix] \<and>
   branches model0 = [bFeature, bMain, bHotfix]"
  by code_simp

lemma deleteFeatureRequested_state:
  "confirming deleteFeatureRequested \<and> action deleteFeatureRequested = ''delete'' \<and>
   cursor deleteFeatureRequested = 0 \<and>
   filtered deleteFeatureRequested = [bFeature, bMain, bHotfix]"
  by code_simp

lemma mergeFeatureRequested_state:
  "confirming mergeFeatureRequested \<and> action mergeFeatureRequested = ''merge'' \<and>
   cursor mergeFeatureRequested = 0 \<and>
   filtered mergeFeatureRequested = [bFeature, bMain, bHotfix]"
  by code_simp

lemma failEnv_commands:
  "fst (gitCheckoutBranch failEnv ''feature'' []) = Some ''exit status 1'' \<and>
   fst (gitDeleteBranch failEnv ''feature'' []) = Some ''exit status 1'' \<and>
   fst (gitMergeIntoCurrent failEnv ''feature'' []) = Some ''exit status 1'' \<and>
   fst (getRecentBranches failEnv []) = Inl ''git for-each-ref failed: exit status 1'' \<and>
   fst (getRecentBranches failEnv (snd (gitFetchAll failEnv []))) =
     Inl ''git for-each-ref failed: exit status 1''"
  by code_simp

lemma demoEnv_after_fetch:
  "fst (getRecentBranches demoEnv (snd (gitFetchAll demoEnv []))) = Inr [bFeature, bMain, bHotfix]"
  by code_simp

theorem gateway_transitions_atomic_witness:
  "fst (fst (Update failEnv model0 (KeyMsg ''enter'') world0)) =
     model0\<lparr>status := ''checkout failed: exit status 1''\<rparr> \<and>
   fst (fst (Update failEnv deleteFeatureRequested (KeyMsg ''y'') world0)) =
     deleteFeatureRequested\<lparr>status := ''delete failed: exit status 1'', confirming := False,
        action := []\<rparr> \<and>
   fst (fst (Update failEnv mergeFeatureRequested (KeyMsg ''Y'') world0)) =
     mergeFeatureRequested\<lparr>status := ''merge failed: exit status 1'', confirming := False,
        action := []\<rparr> \<and>
   fst (fst (Update failEnv model0 (KeyMsg ''r'') world0)) =
     model0\<lparr>status := ''refresh failed: git for-each-ref failed: exit status 1''\<rparr> \<and>
   fst (fst (Update failEnv model0 (KeyMsg ''f'') world0)) =
     model0\<lparr>status := ''fetch failed: git for-each-ref failed: exit status 1''\<rparr> \<and>
   fst (fst (Update demoEnv olderModel (KeyMsg ''f'') world0)) =
     (applySortFilter demoEnv (olderModel\<lparr>branches := [bFeature, bMain, bHotfix]\<rparr>))
       \<lparr>status := ''fetched''\<rparr> \<and>
   (\<exists>st cf ac.
      fst (fst (Update demoEnv olderModel (KeyMsg ''f'') world0)) =
        olderModel\<lparr>status := st, confirming := cf, action := ac\<rparr> \<or>
      (\<exists>h brs. fst (getRecentBranches demoEnv h) = Inr brs \<and>
         fst (fst (Update demoEnv olderModel (KeyMsg ''f'') world0)) =
           (applySortFilter demoEnv (olderModel\<lparr>branches := brs\<rparr>))\<lparr>status := st,
              confirming := cf, action := ac\<rparr>))"
proof -
  have split: "\<And>e m k w. Update e m (KeyMsg k) w =
      ((fst (fst (Update e m (KeyMsg k) w)), snd (fst (Update e m (KeyMsg k) w))),
       snd (Update e m (KeyMsg k) w))"
    by simp
  have w0: "procs world0 = []"
    by (simp add: world0_def)
  have nc: "\<not> IsCurrent bFeature" "Name bFeature = ''feature''"
    by (simp_all add: bFeature_def)
  note t = gateway_transitions_atomic [OF split]
  have "fst (fst (Update failEnv model0 (KeyMsg ''enter'') world0)) =
     model0\<lparr>status := ''checkout failed: exit status 1''\<rparr>"
    using t [where e = failEnv and m = model0 and k = "''enter''" and w = world0 and
          cerr = "''exit status 1''"]
      model0_state failEnv_commands w0 nc
    by simp
  moreover have "fst (fst (Update failEnv deleteFeatureRequested (KeyMsg ''y'') world0)) =
     deleteFeatureRequested\<lparr>status := ''delete failed: exit status 1'', confirming := False,
        action := []\<rparr>"
    using t [where e = failEnv and m = deleteFeatureRequested and k = "''y''" and w = world0 and
          derr = "''exit status 1''"]
      deleteFeatureRequested_state failEnv_commands w0 nc
    by simp
  moreover have "fst (fst (Update failEnv mergeFeatureRequested (KeyMsg ''Y'') world0)) =
     mergeFeatureRequested\<lparr>status := ''merge failed: exit status 1'', confirming := False,
        action := []\<rparr>"
    using t [where e = failEnv and m = mergeFeatureRequested and k = "''Y''" and w = world0 and
          merr = "''exit status 1''"]
      mergeFeatureRequested_state failEnv_commands w0 nc
    by simp
  moreover have "fst (fst (Update failEnv model0 (KeyMsg ''r'') world0)) =
     model0\<lparr>status := ''refresh failed: git for-each-ref failed: exit status 1''\<rparr>"
    using t [where e = failEnv and m = model0 and k = "''r''" and w = world0 and
          rerr = "''git for-each-ref failed: exit status 1''"]
      failEnv_commands w0
    by simp
  moreover have "fst (fst (Update failEnv model0 (KeyMsg ''f'') world0)) =
     model0\<lparr>status := ''fetch failed: git for-each-ref failed: exit status 1''\<rparr>"
    using t [where e = failEnv and m = model0 and k = "''f''" and w = world0 and
          ferr = "''git for-each-ref failed: exit status 1''"]
      failEnv_commands w0
    by simp
  moreover have "fst (fst (Update demoEnv olderModel (KeyMsg ''f'') world0)) =
     (applySortFilter demoEnv (olderModel\<lparr>branches := [bFeature, bMain, bHotfix]\<rparr>))
       \<lparr>status := ''fetched''\<rparr>"
    using t [where e = demoEnv and m = olderModel and k = "''f''" and w = world0 and
          brs = "[bFeature, bMain, bHotfix]"]
      demoEnv_after_fetch w0
    by simp
  moreover have "\<exists>st cf ac.
      fst (fst (Update demoEnv olderModel (KeyMsg ''f'') world0)) =
        olderModel\<lparr>status := st, confirming := cf, action := ac\<rparr> \<or>
      (\<exists>h brs. fst (getRecentBranches demoEnv h) = Inr brs \<and>
         fst (fst (Update demoEnv olderModel (KeyMsg ''f'') world0)) =
           (applySortFilter demoEnv (olderModel\<lparr>branches := brs\<rparr>))\<lparr>status := st,
              confirming := cf, action := ac\<rparr>)"
    using t [where e = demoEnv and m = olderModel and k = "''f''" and w = world0]
    by simp
  ultimately show ?thesis by blast
qed

section \<open>Humanizing an age\<close>

subsection \<open>The rounding to \<open>float64\<close>\<close>

lemma pow2_powi: "pow2 k = 2 powi k"
  by (simp add: pow2_def power_int_def field_simps)

lemma pow2_pos: "0 < pow2 k"
  by (simp add: pow2_powi)

lemma pow2_add: "pow2 (a + b) = pow2 a * pow2 b"
  by (simp add: pow2_powi power_int_add)

lemma pow2_mono: "a \<le> b \<Longrightarrow> pow2 a \<le> pow2 b"
  by (simp add: pow2_powi power_int_increasing)

lemma pow2_strict_mono: "a < b \<Longrightarrow> pow2 a < pow2 b"
  by (simp add: pow2_powi power_int_strict_increasing)

lemma pow2_less_iff: "pow2 a < pow2 b \<longleftrightarrow> a < b"
  using pow2_strict_mono [of a b] pow2_mono [of b a] by (cases "a < b") auto

lemma pow2_nonneg_int: "0 \<le> k \<Longrightarrow> pow2 k = of_int (2 ^ nat k)"
  by (simp add: pow2_def)

lemma bitLength_bounds:
  "0 < n \<Longrightarrow> 0 < bitLength n \<and> 2 ^ nat (bitLength n - 1) \<le> n \<and> n < 2 ^ nat (bitLength n)"
proof (induction n rule: bitLength.induct)
  case (1 n)
  show ?case
  proof (cases "n = 1")
    case True
    have "bitLength 1 = 1"
      by (simp add: bitLength.simps [of 1] bitLength.simps [of 0])
    with True show ?thesis by simp
  next
    case False
    with "1.prems" have half: "0 < n div 2" by simp
    from "1.IH" half "1.prems" have ih:
      "0 < bitLength (n div 2)"
      "2 ^ nat (bitLength (n div 2) - 1) \<le> n div 2"
      "n div 2 < 2 ^ nat (bitLength (n div 2))"
      by simp_all
    have bl: "bitLength n = 1 + bitLength (n div 2)"
      using "1.prems" by (subst bitLength.simps) simp
    have e1: "nat (bitLength n - 1) = Suc (nat (bitLength (n div 2) - 1))"
      using ih(1) bl by simp
    have e2: "nat (bitLength n) = Suc (nat (bitLength (n div 2)))"
      using ih(1) bl by simp
    have "2 * 2 ^ nat (bitLength (n div 2) - 1) \<le> n"
      using ih(2) by linarith
    moreover have "n < 2 * 2 ^ nat (bitLength (n div 2))"
      using ih(3) by linarith
    ultimately show ?thesis
      using ih(1) bl unfolding e1 e2 by simp
  qed
qed

lemma floorLog2_bounds:
  assumes "0 < x"
  shows "pow2 (floorLog2 x) \<le> x \<and> x < pow2 (floorLog2 x + 1)"
proof -
  obtain p q where pq: "quotient_of x = (p, q)"
    by (metis surj_pair)
  then have q: "0 < q" and x: "x = of_int p / of_int q"
    using quotient_of_denom_pos quotient_of_div by blast+
  with assms have p: "0 < p"
    by (simp add: zero_less_divide_iff)
  let ?b = "bitLength p - bitLength q"
  from bitLength_bounds [OF p] have bp:
    "0 < bitLength p" "2 ^ nat (bitLength p - 1) \<le> p" "p < 2 ^ nat (bitLength p)"
    by simp_all
  from bitLength_bounds [OF q] have bq:
    "0 < bitLength q" "2 ^ nat (bitLength q - 1) \<le> q" "q < 2 ^ nat (bitLength q)"
    by simp_all
  have P1: "pow2 (bitLength p - 1) \<le> of_int p"
    using bp by (simp add: pow2_nonneg_int)
  have P2: "of_int p < pow2 (bitLength p)"
    using bp by (simp add: pow2_nonneg_int)
  have Q1: "pow2 (bitLength q - 1) \<le> of_int q"
    using bq by (simp add: pow2_nonneg_int)
  have Q2: "of_int q < pow2 (bitLength q)"
    using bq by (simp add: pow2_nonneg_int)
  have qpos: "(0::rat) < of_int q" using q by simp
  have lower: "pow2 (?b - 1) \<le> x"
  proof -
    have "pow2 (?b - 1) * of_int q \<le> pow2 (?b - 1) * pow2 (bitLength q)"
      using Q2 pow2_pos [of "?b - 1"] by (simp add: mult_left_mono less_imp_le)
    also have "\<dots> = pow2 (bitLength p - 1)"
      by (simp flip: pow2_add)
    also have "\<dots> \<le> of_int p" by (rule P1)
    finally show ?thesis
      unfolding x using qpos by (simp add: pos_le_divide_eq)
  qed
  have upper: "x < pow2 (?b + 1)"
  proof -
    have "of_int p < pow2 (bitLength p)" by (rule P2)
    also have "\<dots> = pow2 (?b + 1) * pow2 (bitLength q - 1)"
      by (simp flip: pow2_add)
    also have "\<dots> \<le> pow2 (?b + 1) * of_int q"
      using Q1 pow2_pos [of "?b + 1"] by (simp add: mult_left_mono less_imp_le)
    finally show ?thesis
      unfolding x using qpos by (simp add: pos_divide_less_eq)
  qed
  show ?thesis
  proof (cases "pow2 ?b \<le> x")
    case True
    then have "floorLog2 x = ?b"
      by (simp add: floorLog2_def pq)
    with True upper show ?thesis by simp
  next
    case False
    then have "floorLog2 x = ?b - 1"
      by (simp add: floorLog2_def pq)
    with False lower show ?thesis by simp
  qed
qed


lemma roundHalfEven_ge: "of_int n \<le> q \<Longrightarrow> n \<le> roundHalfEven q"
proof -
  assume "of_int n \<le> q"
  then have "n \<le> \<lfloor>q\<rfloor>" by (simp add: le_floor_iff)
  then show ?thesis by (auto simp: roundHalfEven_def Let_def)
qed

lemma roundHalfEven_le: "q \<le> of_int n \<Longrightarrow> roundHalfEven q \<le> n"
proof (cases "q = of_int n")
  case True
  then show ?thesis by (simp add: roundHalfEven_def)
next
  case False
  assume "q \<le> of_int n"
  with False have "q < of_int n" by simp
  then have "\<lfloor>q\<rfloor> < n" by (simp add: floor_less_iff)
  then show ?thesis by (auto simp: roundHalfEven_def Let_def)
qed

lemma pow2_numerals: "pow2 53 = 2 ^ 53" "pow2 52 = 2 ^ 52" "pow2 0 = 1"
  by (simp_all add: pow2_def)

lemma round64_pos:
  "0 < x \<Longrightarrow>
   round64 x = of_int (roundHalfEven (x / pow2 (floorLog2 x - 52))) * pow2 (floorLog2 x - 52)"
  by (simp add: round64_def Let_def)

text \<open>A positive number between two numbers with 53-bit significands rounds to a number
  between them.\<close>

lemma round64_le:
  assumes x: "0 < x" and n: "n < 2 ^ 53" and b: "x \<le> of_int n * pow2 k"
  shows "round64 x \<le> of_int n * pow2 k"
proof -
  let ?e = "floorLog2 x"
  let ?u = "pow2 (?e - 52)"
  from floorLog2_bounds [OF x] have lo: "pow2 ?e \<le> x" by simp
  have upos: "0 < ?u" by (rule pow2_pos)
  have "?e - 52 \<le> k"
  proof (rule ccontr)
    assume "\<not> ?e - 52 \<le> k"
    then have k: "k + 53 \<le> ?e" by simp
    have "of_int n * pow2 k < 2 ^ 53 * pow2 k"
      using n pow2_pos [of k] by (simp add: of_int_less_numeral_power_cancel_iff)
    also have "\<dots> = pow2 (k + 53)"
      by (simp only: pow2_add pow2_numerals mult.commute)
    also have "\<dots> \<le> pow2 ?e" using k by (rule pow2_mono)
    finally show False using lo b by simp
  qed
  then have kk: "0 \<le> k - (?e - 52)" by simp
  have split: "pow2 k = pow2 (k - (?e - 52)) * ?u"
    by (simp flip: pow2_add)
  have "x / ?u \<le> of_int n * pow2 (k - (?e - 52))"
    using b upos by (simp add: split pos_divide_le_eq)
  also have "\<dots> = of_int (n * 2 ^ nat (k - (?e - 52)))"
    using kk by (simp add: pow2_nonneg_int)
  finally have "roundHalfEven (x / ?u) \<le> n * 2 ^ nat (k - (?e - 52))"
    by (rule roundHalfEven_le)
  then have "(of_int (roundHalfEven (x / ?u)) :: rat) \<le> of_int (n * 2 ^ nat (k - (?e - 52)))"
    by (simp only: of_int_le_iff)
  then have "of_int (roundHalfEven (x / ?u)) * ?u \<le> of_int (n * 2 ^ nat (k - (?e - 52))) * ?u"
    using upos by (simp add: mult_right_mono less_imp_le)
  also have "\<dots> = of_int n * pow2 k"
    using kk by (simp add: split pow2_nonneg_int)
  finally show ?thesis
    by (simp only: round64_pos [OF x])
qed

lemma round64_ge:
  assumes x: "0 < x" and n: "n < 2 ^ 53" and a: "of_int n * pow2 k \<le> x"
  shows "of_int n * pow2 k \<le> round64 x"
proof -
  let ?e = "floorLog2 x"
  let ?u = "pow2 (?e - 52)"
  from floorLog2_bounds [OF x] have lo: "pow2 ?e \<le> x" by simp
  have upos: "0 < ?u" by (rule pow2_pos)
  have r: "round64 x = of_int (roundHalfEven (x / ?u)) * ?u"
    by (rule round64_pos [OF x])
  show ?thesis
  proof (cases "?e - 52 \<le> k")
    case True
    then have kk: "0 \<le> k - (?e - 52)" by simp
    have split: "pow2 k = pow2 (k - (?e - 52)) * ?u"
      by (simp flip: pow2_add)
    have "of_int (n * 2 ^ nat (k - (?e - 52))) = of_int n * pow2 (k - (?e - 52))"
      using kk by (simp add: pow2_nonneg_int)
    also have "\<dots> \<le> x / ?u"
      using a upos by (simp add: split pos_le_divide_eq)
    finally have "n * 2 ^ nat (k - (?e - 52)) \<le> roundHalfEven (x / ?u)"
      by (rule roundHalfEven_ge)
    then have "(of_int (n * 2 ^ nat (k - (?e - 52))) :: rat) \<le> of_int (roundHalfEven (x / ?u))"
      by (simp only: of_int_le_iff)
    then have "of_int (n * 2 ^ nat (k - (?e - 52))) * ?u \<le> of_int (roundHalfEven (x / ?u)) * ?u"
      using upos by (simp add: mult_right_mono less_imp_le)
    moreover have "of_int (n * 2 ^ nat (k - (?e - 52))) * ?u = of_int n * pow2 k"
      using kk by (simp add: split pow2_nonneg_int)
    ultimately show ?thesis by (simp only: r)
  next
    case False
    then have k: "k + 53 \<le> ?e" by simp
    have "of_int n * pow2 k \<le> 2 ^ 53 * pow2 k"
      using n pow2_pos [of k]
      by (simp add: of_int_less_numeral_power_cancel_iff less_imp_le)
    also have "\<dots> = pow2 (k + 53)"
      by (simp only: pow2_add pow2_numerals mult.commute)
    also have "\<dots> \<le> pow2 ?e" using k by (rule pow2_mono)
    also have "\<dots> = of_int (2 ^ 52) * ?u"
      using pow2_add [of 52 "?e - 52"] by (simp add: pow2_numerals)
    also have "\<dots> \<le> of_int (roundHalfEven (x / ?u)) * ?u"
    proof -
      have "pow2 52 * ?u \<le> x"
        using lo by (simp flip: pow2_add)
      then have "of_int (2 ^ 52) \<le> x / ?u"
        using upos by (simp add: pos_le_divide_eq pow2_numerals)
      then have "2 ^ 52 \<le> roundHalfEven (x / ?u)"
        by (rule roundHalfEven_ge)
      then have "(of_int (2 ^ 52) :: rat) \<le> of_int (roundHalfEven (x / ?u))"
        by (simp only: of_int_le_iff)
      then show ?thesis
        using upos by (simp only: mult_right_mono less_imp_le)
    qed
    finally show ?thesis by (simp only: r)
  qed
qed

lemma round64_int:
  assumes "0 \<le> n" and "n < 2 ^ 53"
  shows "round64 (of_int n) = of_int n"
proof (cases "n = 0")
  case True
  then show ?thesis by (simp add: round64_def)
next
  case False
  with assms have pos: "(0::rat) < of_int n" by simp
  have one: "pow2 0 = 1" by (rule pow2_numerals)
  have "round64 (of_int n) \<le> of_int n * pow2 0"
    by (rule round64_le [OF pos assms(2)]) (simp add: one)
  moreover have "of_int n * pow2 0 \<le> round64 (of_int n)"
    by (rule round64_ge [OF pos assms(2)]) (simp add: one)
  ultimately show ?thesis by (simp add: one)
qed

lemma round64_nonneg:
  assumes "0 \<le> x"
  shows "0 \<le> round64 x"
proof (cases "x = 0")
  case True
  then show ?thesis by (simp add: round64_def)
next
  case False
  with assms have pos: "0 < x" by simp
  have "of_int 0 * pow2 0 \<le> round64 x"
    by (rule round64_ge [OF pos]) (use pos in simp_all)
  then show ?thesis by simp
qed


subsection \<open>Minutes and hours of a duration\<close>

lemma quo_rem_nonneg: "0 \<le> a \<Longrightarrow> 0 < b \<Longrightarrow> quo a b = a div b \<and> rem a b = a mod b"
  by (cases "a = 0") (simp_all add: quo_def rem_def minus_mult_div_eq_mod)

lemma pow2_neg: "pow2 (- int p) = 1 / 2 ^ p"
  by (cases "p = 0") (simp_all add: pow2_def)

lemma one_minus_pow2: "of_int (2 ^ p - 1) * pow2 (- int p) = 1 - pow2 (- int p)"
  by (simp add: pow2_neg field_simps)

lemma round64_0: "round64 0 = 0"
  by (simp add: round64_def)

lemma fdiv_frac_bound:
  assumes r: "0 \<le> r" "r < C" and C: "C \<le> 2 ^ p" and p: "p \<le> 53"
  shows "0 \<le> fdiv (float64_of_int r) (of_int C) \<and>
         fdiv (float64_of_int r) (of_int C) \<le> 1 - pow2 (- int p)"
proof -
  have p53: "(2::int) ^ p \<le> 2 ^ 53"
    by (rule power_increasing) (use p in simp_all)
  with r C have r53: "r < 2 ^ 53" by linarith
  have conv: "float64_of_int r = of_int r"
    unfolding float64_of_int_def by (rule round64_int [OF r(1) r53])
  have Cpos: "(0::rat) < of_int C" using r by simp
  let ?x = "of_int r / of_int C :: rat"
  have x0: "0 \<le> ?x" using r Cpos by simp
  have p1: "pow2 (- int p) \<le> 1"
    by (simp add: pow2_neg)
  have eq: "fdiv (float64_of_int r) (of_int C) = round64 ?x"
    by (simp add: conv fdiv_def)
  show ?thesis
  proof (cases "r = 0")
    case True
    then have "round64 ?x = 0" by (simp add: round64_0)
    then show ?thesis unfolding eq using p1 by simp
  next
    case False
    with r x0 Cpos have xpos: "0 < ?x" by simp
    have "(of_int r :: rat) \<le> of_int C - 1"
      using r by (metis of_int_1 of_int_diff of_int_le_iff zle_diff1_eq)
    then have "?x \<le> (of_int C - 1) / of_int C"
      using Cpos by (simp add: divide_right_mono less_imp_le)
    also have "\<dots> = 1 - 1 / of_int C"
      using Cpos by (simp add: field_simps)
    also have "\<dots> \<le> 1 - pow2 (- int p)"
    proof -
      have "(of_int C :: rat) \<le> of_int (2 ^ p)" using C by (simp only: of_int_le_iff)
      then have "(of_int C :: rat) \<le> 2 ^ p" by simp
      then have "1 / (2 ^ p :: rat) \<le> 1 / of_int C"
        using Cpos by (simp add: frac_le)
      then show ?thesis by (simp add: pow2_neg)
    qed
    finally have ub: "?x \<le> of_int (2 ^ p - 1) * pow2 (- int p)"
      by (simp only: one_minus_pow2)
    have n53: "(2::int) ^ p - 1 < 2 ^ 53"
      using p53 by linarith
    from round64_le [OF xpos n53 ub, unfolded one_minus_pow2] round64_nonneg [OF x0]
    show ?thesis unfolding eq by simp
  qed
qed

lemma fadd_int_frac:
  assumes q: "0 \<le> q" and f: "0 \<le> f" "f \<le> 1 - pow2 (- int p)"
    and fit: "(q + 1) * 2 ^ p \<le> 2 ^ 53"
  shows "of_int q \<le> fadd (float64_of_int q) f \<and>
         fadd (float64_of_int q) f \<le> of_int q + 1 - pow2 (- int p)"
proof -
  have "q + 1 \<le> (q + 1) * 2 ^ p"
    using q by (simp add: mult_le_cancel_left1)
  with fit have q53: "q < 2 ^ 53" by linarith
  have conv: "float64_of_int q = of_int q"
    unfolding float64_of_int_def by (rule round64_int [OF q q53])
  let ?x = "of_int q + f :: rat"
  have x0: "0 \<le> ?x" using q f by simp
  have p1: "pow2 (- int p) \<le> 1"
    by (simp add: pow2_neg)
  have eq: "fadd (float64_of_int q) f = round64 ?x"
    by (simp add: conv fadd_def)
  show ?thesis
  proof (cases "?x = 0")
    case True
    with q f have "q = 0"
      by (simp add: add_nonneg_eq_0_iff)
    moreover from True have "round64 ?x = 0"
      by (simp add: round64_0)
    ultimately show ?thesis
      unfolding eq using p1 by simp
  next
    case False
    with x0 have xpos: "0 < ?x" by simp
    have one: "pow2 0 = 1" by (rule pow2_numerals)
    have lb: "of_int q * pow2 0 \<le> ?x" using f by (simp add: one)
    have "of_int ((q + 1) * 2 ^ p - 1) * pow2 (- int p) = of_int q + 1 - pow2 (- int p)"
      by (simp add: pow2_neg field_simps)
    with f have ub: "?x \<le> of_int ((q + 1) * 2 ^ p - 1) * pow2 (- int p)"
      by simp
    have n53: "(q + 1) * 2 ^ p - 1 < 2 ^ 53" using fit by linarith
    note rep = \<open>of_int ((q + 1) * 2 ^ p - 1) * pow2 (- int p) = of_int q + 1 - pow2 (- int p)\<close>
    from round64_ge [OF xpos q53 lb, unfolded one] round64_le [OF xpos n53 ub, unfolded rep]
    show ?thesis
      unfolding eq by simp
  qed
qed

lemma Duration_Minutes_bounds:
  assumes "0 \<le> d" and "d div Minute < 2 ^ 16"
  shows "of_int (d div Minute) \<le> Duration_Minutes d \<and>
         Duration_Minutes d \<le> of_int (d div Minute) + 1 - pow2 (- 36)"
proof -
  have M: "0 < Minute" by (simp add: Minute_def)
  from quo_rem_nonneg [OF assms(1) M]
  have qr: "quo d Minute = d div Minute" "rem d Minute = d mod Minute" by simp_all
  have r: "0 \<le> d mod Minute" "d mod Minute < Minute" using M by simp_all
  have C: "Minute \<le> 2 ^ 36" by (simp add: Minute_def)
  from fdiv_frac_bound [OF r C]
  have f: "0 \<le> fdiv (float64_of_int (d mod Minute)) 60000000000"
    "fdiv (float64_of_int (d mod Minute)) 60000000000 \<le> 1 - pow2 (- int 36)"
    by (simp_all add: Minute_def)
  have q: "0 \<le> d div Minute" using assms(1) M by (simp add: pos_imp_zdiv_nonneg_iff)
  have fit: "(d div Minute + 1) * 2 ^ 36 \<le> 2 ^ 53" using assms(2) by simp
  from fadd_int_frac [OF q f fit]
  show ?thesis by (simp add: Duration_Minutes_def qr)
qed

lemma Duration_Hours_bounds:
  assumes "0 \<le> d" and "d div Hour < 2 ^ 10"
  shows "of_int (d div Hour) \<le> Duration_Hours d \<and>
         Duration_Hours d \<le> of_int (d div Hour) + 1 - pow2 (- 42)"
proof -
  have H: "0 < Hour" by (simp add: Hour_def Minute_def)
  from quo_rem_nonneg [OF assms(1) H]
  have qr: "quo d Hour = d div Hour" "rem d Hour = d mod Hour" by simp_all
  have r: "0 \<le> d mod Hour" "d mod Hour < Hour" using H by simp_all
  have C: "Hour \<le> 2 ^ 42" by (simp add: Hour_def Minute_def)
  from fdiv_frac_bound [OF r C]
  have f: "0 \<le> fdiv (float64_of_int (d mod Hour)) 3600000000000"
    "fdiv (float64_of_int (d mod Hour)) 3600000000000 \<le> 1 - pow2 (- int 42)"
    by (simp_all add: Hour_def Minute_def)
  have q: "0 \<le> d div Hour" using assms(1) H by (simp add: pos_imp_zdiv_nonneg_iff)
  have fit: "(d div Hour + 1) * 2 ^ 42 \<le> 2 ^ 53" using assms(2) by simp
  from fadd_int_frac [OF q f fit]
  show ?thesis by (simp add: Duration_Hours_def qr)
qed


lemma fadd_int_coarse:
  assumes q: "0 \<le> q" "q + 1 < 2 ^ 53" and f: "0 \<le> f" "f \<le> 1"
  shows "of_int q \<le> fadd (float64_of_int q) f \<and> fadd (float64_of_int q) f \<le> of_int q + 1"
proof -
  from q have q53: "q < 2 ^ 53" by linarith
  have conv: "float64_of_int q = of_int q"
    unfolding float64_of_int_def by (rule round64_int [OF q(1) q53])
  let ?x = "of_int q + f :: rat"
  have eq: "fadd (float64_of_int q) f = round64 ?x"
    by (simp add: conv fadd_def)
  have one: "pow2 0 = 1" by (rule pow2_numerals)
  show ?thesis
  proof (cases "?x = 0")
    case True
    with q f have "q = 0"
      by (simp add: add_nonneg_eq_0_iff)
    moreover from True have "round64 ?x = 0"
      by (simp add: round64_0)
    ultimately show ?thesis unfolding eq by simp
  next
    case False
    with q f have xpos: "0 < ?x" by (simp add: add_nonneg_nonneg order_less_le)
    have lb: "of_int q * pow2 0 \<le> ?x" using f by (simp add: one)
    have ub: "?x \<le> of_int (q + 1) * pow2 0" using f by (simp add: one)
    from round64_ge [OF xpos q53 lb, unfolded one] round64_le [OF xpos q(2) ub, unfolded one]
    show ?thesis unfolding eq by simp
  qed
qed

lemma Duration_Hours_coarse:
  assumes "0 \<le> d" and "d \<le> maxDuration"
  shows "of_int (d div Hour) \<le> Duration_Hours d \<and> Duration_Hours d \<le> of_int (d div Hour) + 1"
proof -
  have H: "0 < Hour" by (simp add: Hour_def Minute_def)
  from quo_rem_nonneg [OF assms(1) H]
  have qr: "quo d Hour = d div Hour" "rem d Hour = d mod Hour" by simp_all
  have r: "0 \<le> d mod Hour" "d mod Hour < Hour" using H by simp_all
  have C: "Hour \<le> 2 ^ 42" by (simp add: Hour_def Minute_def)
  from fdiv_frac_bound [OF r C]
  have f: "0 \<le> fdiv (float64_of_int (d mod Hour)) 3600000000000"
    "fdiv (float64_of_int (d mod Hour)) 3600000000000 \<le> 1 - pow2 (- int 42)"
    by (simp_all add: Hour_def Minute_def)
  have "0 \<le> pow2 (- int 42)" using pow2_pos [of "- int 42"] by simp
  with f(2) have f1: "fdiv (float64_of_int (d mod Hour)) 3600000000000 \<le> 1" by linarith
  have q: "0 \<le> d div Hour" using assms(1) H by (simp add: pos_imp_zdiv_nonneg_iff)
  have "d div Hour \<le> maxDuration div Hour"
    using assms(2) H by (rule zdiv_mono1)
  also have "maxDuration div Hour = 2562047"
    by (simp add: maxDuration_def Hour_def Minute_def)
  finally have fit: "d div Hour + 1 < 2 ^ 53" by simp
  from fadd_int_coarse [OF q fit f(1) f1]
  show ?thesis by (simp add: Duration_Hours_def qr)
qed

lemma int_div_less:
  fixes a b c :: int
  assumes "0 < b" and "a < c * b"
  shows "a div b < c"
proof (rule ccontr)
  assume "\<not> a div b < c"
  then have "c * b \<le> (a div b) * b"
    using assms(1) by (simp add: mult_right_mono)
  also have "\<dots> = a - a mod b"
    by (simp add: minus_mod_eq_div_mult)
  also have "\<dots> \<le> a"
    using assms(1) by simp
  finally show False using assms(2) by simp
qed

lemma int_le_div:
  fixes a b c :: int
  assumes "0 < b" and "c * b \<le> a"
  shows "c \<le> a div b"
proof (rule ccontr)
  assume "\<not> c \<le> a div b"
  then have "a div b + 1 \<le> c" by simp
  then have "(a div b + 1) * b \<le> c * b"
    using assms(1) by (simp only: mult_right_mono less_imp_le)
  moreover have "a = (a div b) * b + a mod b"
    by simp
  moreover have "a mod b < b"
    using assms(1) by simp
  ultimately have "a < c * b"
    by (metis add.commute add_less_cancel_left distrib_right mult_1 order_less_le_trans)
  with assms(2) show False by simp
qed

lemma floor_between:
  fixes x :: rat
  shows "of_int k \<le> x \<Longrightarrow> x < of_int k + 1 \<Longrightarrow> \<lfloor>x\<rfloor> = k"
  by (simp add: floor_unique)

lemma itoa_1: "itoa 1 = ''1''"
  by (simp add: itoa_def decimal.simps [of 1])

text \<open>Below 30 days the number in the label is the whole number of minutes, hours or
  days of the age, for every duration.\<close>

lemma humanize_exact_below_30_days:
  assumes "d < 30 * 24 * Hour"
  shows "humanizeDuration d =
           (if d < Minute then ''just now''
            else if d < Hour then itoa (d div Minute) @ ''m ago''
            else if d < 24 * Hour then itoa (d div Hour) @ ''h ago''
            else itoa (d div (24 * Hour)) @ ''d ago'')"
proof -
  have M: "0 < Minute" and H: "0 < Hour" "Hour = 60 * Minute"
    by (simp_all add: Hour_def Minute_def)
  have p36: "pow2 (- 36) = 1 / 2 ^ 36" and p42: "pow2 (- 42) = 1 / 2 ^ 42"
    and p47: "pow2 (- 47) = 1 / 2 ^ 47"
    by (simp_all add: pow2_def)
  consider "d < Minute" | "Minute \<le> d" "d < Hour" | "Hour \<le> d" "d < 24 * Hour"
    | "24 * Hour \<le> d"
    by linarith
  then show ?thesis
  proof cases
    case 1
    then show ?thesis by (simp add: humanizeDuration_def)
  next
    case 2
    then have d0: "0 \<le> d" using M by linarith
    have "d div Minute < 60" using 2 H by (intro int_div_less M) simp
    then have small: "d div Minute < 2 ^ 16" by simp
    from Duration_Minutes_bounds [OF d0 small]
    have b: "of_int (d div Minute) \<le> Duration_Minutes d"
      "Duration_Minutes d < of_int (d div Minute) + 1"
      by (simp_all add: p36)
    have q0: "0 \<le> d div Minute" using d0 M by (simp add: pos_imp_zdiv_nonneg_iff)
    with b(1) have "0 \<le> Duration_Minutes d" by (simp add: order_trans [OF _ b(1)])
    then have "int_of_float64 (Duration_Minutes d) = d div Minute"
      using floor_between [OF b] by (simp add: int_of_float64_def)
    with 2 show ?thesis by (simp add: humanizeDuration_def)
  next
    case 3
    then have d0: "0 \<le> d" using H by linarith
    have "d div Hour < 24" using 3 by (intro int_div_less H(1)) simp
    then have small: "d div Hour < 2 ^ 10" by simp
    from Duration_Hours_bounds [OF d0 small]
    have b: "of_int (d div Hour) \<le> Duration_Hours d"
      "Duration_Hours d < of_int (d div Hour) + 1"
      by (simp_all add: p42)
    have q0: "0 \<le> d div Hour" using d0 H by (simp add: pos_imp_zdiv_nonneg_iff)
    with b(1) have "0 \<le> Duration_Hours d" by (simp add: order_trans [OF _ b(1)])
    then have "int_of_float64 (Duration_Hours d) = d div Hour"
      using floor_between [OF b] by (simp add: int_of_float64_def)
    moreover from 3 M H have "\<not> d < Minute" by linarith
    ultimately show ?thesis using 3 by (simp add: humanizeDuration_def)
  next
    case 4
    then have d0: "0 \<le> d" using H by linarith
    let ?q = "d div Hour"
    let ?k = "d div (24 * Hour)"
    have kq: "?k = ?q div 24"
      using zdiv_zmult2_eq [of 24 d Hour] by (simp add: mult.commute)
    have "?q < 720" using assms by (intro int_div_less H(1)) simp
    then have small: "?q < 2 ^ 10" by simp
    have "24 \<le> ?q" using 4 by (intro int_le_div H(1)) simp
    then have k1: "1 \<le> ?k" and k30: "?k < 30"
      using \<open>?q < 720\<close> unfolding kq by simp_all
    from Duration_Hours_bounds [OF d0 small]
    have b: "of_int ?q \<le> Duration_Hours d"
      "Duration_Hours d \<le> of_int ?q + 1 - 1 / 2 ^ 42"
      by (simp_all add: p42)
    let ?x = "Duration_Hours d / 24"
    have q24: "24 * ?k \<le> ?q" "?q < 24 * ?k + 24"
      unfolding kq by simp_all
    have "(of_int (24 * ?k) :: rat) \<le> of_int ?q" using q24(1) by (simp only: of_int_le_iff)
    with b(1) have lb: "of_int ?k \<le> ?x" by simp
    have "(of_int ?q :: rat) \<le> of_int (24 * ?k + 23)"
      using q24(2) by (simp only: of_int_le_iff)
    with b(2) have "Duration_Hours d \<le> 24 * of_int ?k + 24 - 1 / 2 ^ 42" by simp
    then have ub: "?x \<le> of_int ?k + 1 - 1 / 2 ^ 47" by simp
    have xpos: "0 < ?x" using lb k1 by (simp add: order_less_le_trans [OF _ lb])
    have one: "pow2 0 = 1" by (rule pow2_numerals)
    have k53: "?k < 2 ^ 53" using k30 by simp
    have n53: "(?k + 1) * 2 ^ 47 - 1 < 2 ^ 53" using k30 by simp
    have rep: "of_int ((?k + 1) * 2 ^ 47 - 1) * pow2 (- 47) = of_int ?k + 1 - 1 / 2 ^ 47"
      by (simp add: p47 field_simps)
    have lb': "of_int ?k * pow2 0 \<le> ?x" using lb by (simp add: one)
    have ub': "?x \<le> of_int ((?k + 1) * 2 ^ 47 - 1) * pow2 (- 47)"
      using ub by (simp only: rep)
    from round64_ge [OF xpos k53 lb', unfolded one] round64_le [OF xpos n53 ub', unfolded rep]
    have r: "of_int ?k \<le> round64 ?x" "round64 ?x < of_int ?k + 1"
      by simp_all
    from r(1) k1 have "0 \<le> round64 ?x" by (simp add: order_trans [OF _ r(1)])
    then have "int_of_float64 (fdiv (Duration_Hours d) 24) = ?k"
      using floor_between [OF r] by (simp add: int_of_float64_def fdiv_def)
    moreover from 4 M H have "\<not> d < Minute" "\<not> d < Hour" "\<not> d < 24 * Hour" by linarith+
    ultimately show ?thesis using assms by (simp add: humanizeDuration_def)
  qed
qed

text \<open>From 30 days on the number in the label is the whole number of periods of the age
  or that number plus one.\<close>

lemma quotient_within_one:
  assumes d: "0 \<le> d" "d \<le> maxDuration" and c: "0 < c" "c \<le> 8760" and lo: "c * Hour \<le> d"
  shows "int_of_float64 (fdiv (Duration_Hours d) (of_int c)) = d div (c * Hour) \<or>
         int_of_float64 (fdiv (Duration_Hours d) (of_int c)) = d div (c * Hour) + 1"
proof -
  have H: "0 < Hour" by (simp add: Hour_def Minute_def)
  let ?q = "d div Hour"
  let ?k = "d div (c * Hour)"
  have kq: "?k = ?q div c"
    using zdiv_zmult2_eq [of c d Hour] c by (simp add: mult.commute)
  have "?q \<le> maxDuration div Hour"
    using d(2) H by (rule zdiv_mono1)
  also have "maxDuration div Hour = 2562047"
    by (simp add: maxDuration_def Hour_def Minute_def)
  finally have q: "?q \<le> 2562047" .
  have cq: "c \<le> ?q" using lo by (intro int_le_div H) simp
  have k1: "1 \<le> ?k"
    unfolding kq by (rule int_le_div) (use c cq in simp_all)
  have "?k \<le> ?q"
    unfolding kq using c cq by (intro int_div_le_self) simp_all
  with q have k: "?k \<le> 2562047" by simp
  from Duration_Hours_coarse [OF d]
  have b: "of_int ?q \<le> Duration_Hours d" "Duration_Hours d \<le> of_int ?q + 1"
    by simp_all
  have m: "c * (?q div c) + ?q mod c = ?q" by (rule mult_div_mod_eq)
  have r: "0 \<le> ?q mod c" "?q mod c < c" using c by simp_all
  have ex: "c * (?q div c + 1) = c * (?q div c) + c" by (simp add: distrib_left)
  have q1: "c * ?k \<le> ?q" "?q + 1 \<le> c * (?k + 1)"
    unfolding kq ex using m r by linarith+
  have cpos: "(0::rat) < of_int c" using c by simp
  let ?x = "Duration_Hours d / of_int c"
  have "(of_int (c * ?k) :: rat) \<le> of_int ?q" using q1(1) by (simp only: of_int_le_iff)
  with b(1) have "of_int c * of_int ?k \<le> Duration_Hours d" by simp
  then have lb: "of_int ?k \<le> ?x"
    using cpos by (simp add: pos_le_divide_eq mult.commute)
  have "(of_int (?q + 1) :: rat) \<le> of_int (c * (?k + 1))"
    using q1(2) by (simp only: of_int_le_iff)
  with b(2) have "Duration_Hours d \<le> of_int c * (of_int ?k + 1)" by simp
  then have ub: "?x \<le> of_int ?k + 1"
    using cpos by (simp add: pos_divide_le_eq mult.commute)
  have xpos: "0 < ?x" using lb k1 by (simp add: order_less_le_trans [OF _ lb])
  have one: "pow2 0 = 1" by (rule pow2_numerals)
  have k53: "?k < 2 ^ 53" "?k + 1 < 2 ^ 53" using k by simp_all
  have lb': "of_int ?k * pow2 0 \<le> ?x" using lb by (simp add: one)
  have ub': "?x \<le> of_int (?k + 1) * pow2 0" using ub by (simp add: one)
  from round64_ge [OF xpos k53(1) lb', unfolded one] round64_le [OF xpos k53(2) ub', unfolded one]
  have rb: "of_int ?k \<le> round64 ?x" "round64 ?x \<le> of_int ?k + 1"
    by simp_all
  from rb(1) k1 have r0: "0 \<le> round64 ?x" by (simp add: order_trans [OF _ rb(1)])
  have fl: "int_of_float64 (fdiv (Duration_Hours d) (of_int c)) = \<lfloor>round64 ?x\<rfloor>"
    using r0 by (simp add: int_of_float64_def fdiv_def)
  show ?thesis
  proof (cases "round64 ?x = of_int ?k + 1")
    case True
    then have "\<lfloor>round64 ?x\<rfloor> = ?k + 1"
      by (metis floor_of_int of_int_1 of_int_add)
    with fl show ?thesis by simp
  next
    case False
    with rb(2) have "round64 ?x < of_int ?k + 1" by simp
    from floor_between [OF rb(1) this] fl show ?thesis by simp
  qed
qed

lemma humanize_months_years_within_one:
  assumes "30 * 24 * Hour \<le> d" and "d \<le> maxDuration"
  shows "if d < 365 * 24 * Hour
         then humanizeDuration d = itoa (d div (30 * 24 * Hour)) @ ''mo ago'' \<or>
              humanizeDuration d = itoa (d div (30 * 24 * Hour) + 1) @ ''mo ago''
         else humanizeDuration d = itoa (d div (365 * 24 * Hour)) @ ''y ago'' \<or>
              humanizeDuration d = itoa (d div (365 * 24 * Hour) + 1) @ ''y ago''"
proof -
  have H: "0 < Hour" by (simp add: Hour_def Minute_def)
  have d0: "0 \<le> d" using assms(1) H by linarith
  have nb: "\<not> d < Minute" "\<not> d < Hour" "\<not> d < 24 * Hour" "\<not> d < 30 * 24 * Hour"
    using assms(1) by (simp_all add: Hour_def Minute_def)
  show ?thesis
  proof (cases "d < 365 * 24 * Hour")
    case True
    let ?N = "int_of_float64 (fdiv (Duration_Hours d) 720)"
    let ?k = "d div (30 * 24 * Hour)"
    have k1: "1 \<le> ?k" using assms(1) H by (intro int_le_div) simp_all
    from quotient_within_one [OF d0 assms(2), of 720] assms(1)
    have N: "?N = ?k \<or> ?N = ?k + 1" by simp
    have "humanizeDuration d = (if ?N \<le> 1 then ''1mo ago'' else itoa ?N @ ''mo ago'')"
      using nb True by (simp add: humanizeDuration_def Let_def)
    also have "\<dots> = itoa ?N @ ''mo ago''"
      using N k1 by (auto simp: itoa_1)
    finally show ?thesis using N True by auto
  next
    case False
    let ?N = "int_of_float64 (fdiv (Duration_Hours d) 8760)"
    let ?k = "d div (365 * 24 * Hour)"
    from False have lo: "365 * 24 * Hour \<le> d" by simp
    have k1: "1 \<le> ?k" using lo H by (intro int_le_div) simp_all
    from quotient_within_one [OF d0 assms(2), of 8760] lo
    have N: "?N = ?k \<or> ?N = ?k + 1" by simp
    have "humanizeDuration d = (if ?N \<le> 1 then ''1y ago'' else itoa ?N @ ''y ago'')"
      using nb False by (simp add: humanizeDuration_def Let_def)
    also have "\<dots> = itoa ?N @ ''y ago''"
      using N k1 by (auto simp: itoa_1)
    finally show ?thesis using N False by auto
  qed
qed

subsection \<open>Labels at given ages\<close>

text \<open>The rounding agrees with the \<open>float64\<close> values of \<open>1/3\<close> and \<open>1/10\<close>, and keeps a
  value that has a 53-bit significand.\<close>

lemma round64_examples:
  "round64 (1 / 3) = 6004799503160661 / 2 ^ 54 \<and>
   round64 (1 / 10) = 3602879701896397 / 2 ^ 55 \<and>
   round64 7920 = 7920 \<and>
   round64 (9007199254740993 :: rat) = 9007199254740992"
  by code_simp

text \<open>The examples of the specification: 45 seconds, 90 minutes, 30 days and 365 days; and
  the last nanosecond of the first minute, hour, day and of the thirtieth day.\<close>

lemma humanize_examples:
  "humanizeDuration 45000000000 = ''just now'' \<and>
   humanizeDuration (90 * Minute) = ''1h ago'' \<and>
   humanizeDuration (30 * 24 * Hour) = ''1mo ago'' \<and>
   humanizeDuration (365 * 24 * Hour) = ''1y ago'' \<and>
   humanizeDuration (Minute - 1) = ''just now'' \<and>
   humanizeDuration Minute = ''1m ago'' \<and>
   humanizeDuration (Hour - 1) = ''59m ago'' \<and>
   humanizeDuration Hour = ''1h ago'' \<and>
   humanizeDuration (24 * Hour - 1) = ''23h ago'' \<and>
   humanizeDuration (24 * Hour) = ''1d ago'' \<and>
   humanizeDuration (30 * 24 * Hour - 1) = ''29d ago'' \<and>
   humanizeDuration (365 * 24 * Hour - 1) = ''12mo ago''"
  by code_simp

text \<open>Claim C9, as the code behaves. A commit of 2023-06-01T00:00:00Z is humanized one
  nanosecond before it is 330 days old. The age lies in the month range and holds ten
  whole periods of 30 days. \<open>Duration.Hours\<close> adds 7919 and the \<open>float64\<close> nearest to
  \<open>3599999999999 / 3600000000000\<close>; the sum is not a \<open>float64\<close> and rounds to 7920, so
  that the division by 720 gives 11 and the label reads eleven months.\<close>

theorem humanize_rounds_up_before_month_boundary:
  "time_Since 1714089599999999999 1685577600000000000 = 330 * 24 * Hour - 1 \<and>
   30 * 24 * Hour \<le> 330 * 24 * Hour - 1 \<and> 330 * 24 * Hour - 1 < 365 * 24 * Hour \<and>
   (330 * 24 * Hour - 1) div (30 * 24 * Hour) = 10 \<and>
   Duration_Hours (330 * 24 * Hour - 1) = 7920 \<and>
   humanizeTime 1714089599999999999 1685577600000000000 = ''11mo ago''"
  by code_simp

end
